theory Spec2Isabelle
  imports Complex_Main "HOL-Library.Word" "HOL-Library.Log_Nat"
begin

unbundle bit_operations_syntax

section \<open>The StressDomain widget\<close>

text \<open>
  A shallow embedding of the class \<open>StressDomain\<close> (the version with colour schemes and a
  data grid). Conventions of the embedding:
  \<^item> a JavaScript number is a \<open>real\<close>, and the special values (\<open>NaN\<close>, the infinities)
    are not values of the model. The arithmetic is exact, except in \<open>scaleX\<close> and \<open>scaleY\<close>,
    where the order of the results depends on the rounding: there every operation rounds
    its result to a double. Where the source divides by a quantity that may be zero the
    model says so explicitly;
  \<^item> the 32-bit integer operators (\<open><<\<close>, \<open>>>\<close>, \<open>&\<close>) work on \<open>32 word\<close>;
  \<^item> a string is a \<open>string\<close>; the two characters of the labels outside ASCII are held as
    their UTF-8 bytes;
  \<^item> \<open>undefined\<close> is \<open>None\<close>, an uncaught exception is a value of type \<open>error\<close>;
  \<^item> the canvas context is the list of the calls it has received, the console the list of
    the messages logged with \<open>console.error\<close>;
  \<^item> arrays handed over by a caller live in a heap, as the caller keeps a reference.
\<close>

subsection \<open>Runtime functions of the language\<close>

datatype error = TypeError

text \<open>\<open>xs[i]\<close> for an integral index: \<open>undefined\<close> outside the array.\<close>

definition arrayGet :: "'a list \<Rightarrow> int \<Rightarrow> 'a option" where
  "arrayGet xs i = (if 0 \<le> i \<and> i < int (length xs) then Some (xs ! nat i) else None)"

text \<open>\<open>Math.round\<close>: to the nearest integer, a half upwards.\<close>

definition mathRound :: "real \<Rightarrow> int" where
  "mathRound x = \<lfloor>x + 1 / 2\<rfloor>"

text \<open>\<open>Math.PI\<close>: the double nearest to the number pi, exactly.\<close>

definition mathPI :: real where
  "mathPI = 884279719003555 / 2 ^ 48"

text \<open>
  \<open>Number.prototype.toString(radix)\<close> on integers: digits \<open>0-9a-z\<close>, most significant
  first, a minus sign for a negative number. The radix is 10 or 16 in this program (the
  language refuses a radix below 2).
\<close>

definition digitChar :: "nat \<Rightarrow> char" where
  "digitChar d = ''0123456789abcdefghijklmnopqrstuvwxyz'' ! d"

function natToString :: "nat \<Rightarrow> nat \<Rightarrow> string" where
  "natToString radix n =
     (if radix < 2 \<or> n < radix then [digitChar n]
      else natToString radix (n div radix) @ [digitChar (n mod radix)])"
  by pat_completeness auto
termination
  by (relation "measure snd") auto

declare natToString.simps [simp del]

definition intToString :: "nat \<Rightarrow> int \<Rightarrow> string" where
  "intToString radix n =
     (if n < 0 then CHR ''-'' # natToString radix (nat (- n)) else natToString radix (nat n))"

text \<open>
  \<open>parseInt(s, 16)\<close>: leading white space is skipped (the ASCII white space here), then an
  optional sign and an optional \<open>0x\<close>; the longest run of hexadecimal digits that follows
  is the value, and \<open>NaN\<close> (\<open>None\<close>) is the result when the run is empty.
\<close>

definition isWhiteSpace :: "char \<Rightarrow> bool" where
  "isWhiteSpace c = (c \<in> set [CHR 0x09, CHR 0x0A, CHR 0x0B, CHR 0x0C, CHR 0x0D, CHR '' ''])"

definition hexDigitValue :: "char \<Rightarrow> nat option" where
  "hexDigitValue c =
     map_of (zip ''0123456789abcdef'' [0 ..< 16] @ zip ''ABCDEF'' [10 ..< 16]) c"

definition stripHexPrefix :: "string \<Rightarrow> string" where
  "stripHexPrefix s = (if take 2 s = ''0x'' \<or> take 2 s = ''0X'' then drop 2 s else s)"

definition parseHexDigits :: "string \<Rightarrow> int option" where
  "parseHexDigits s =
     (let z = takeWhile (\<lambda>c. hexDigitValue c \<noteq> None) s
      in if z = [] then None
         else Some (foldl (\<lambda>acc c. 16 * acc + int (the (hexDigitValue c))) 0 z))"

definition parseInt16 :: "string \<Rightarrow> int option" where
  "parseInt16 s =
     (let t = dropWhile isWhiteSpace s;
          sign = (if take 1 t = ''-'' then - 1 else 1);
          u = (if take 1 t = ''-'' \<or> take 1 t = ''+'' then drop 1 t else t)
      in map_option (\<lambda>m. sign * m) (parseHexDigits (stripHexPrefix u)))"

text \<open>\<open>ToInt32\<close>: \<open>NaN\<close> becomes 0, an integer is taken modulo \<open>2^32\<close>.\<close>

definition toInt32 :: "int option \<Rightarrow> 32 word" where
  "toInt32 x = (case x of None \<Rightarrow> 0 | Some i \<Rightarrow> word_of_int i)"

text \<open>\<open>x << n\<close>, \<open>x >> n\<close> and \<open>x & y\<close>; the shift count is taken modulo 32.\<close>

definition shl32 :: "int \<Rightarrow> nat \<Rightarrow> int" where
  "shl32 x n = sint (push_bit (n mod 32) (word_of_int x :: 32 word))"

definition sar32 :: "32 word \<Rightarrow> nat \<Rightarrow> 32 word" where
  "sar32 x n = signed_drop_bit (n mod 32) x"

subsection \<open>Colours\<close>

text \<open>
  The constant \<open>colorSchemes\<close>. A name that is not a key of the table looks up as
  \<open>undefined\<close>, except the names of the properties that every object inherits from
  \<open>Object.prototype\<close>: those look up as functions or objects, which this table does not
  hold, so statements about names outside the table leave them out.
\<close>

definition inheritedNames :: "string list" where
  "inheritedNames =
     [''constructor'', ''hasOwnProperty'', ''isPrototypeOf'', ''propertyIsEnumerable'',
      ''toLocaleString'', ''toString'', ''valueOf'', ''__proto__'', ''__defineGetter__'',
      ''__defineSetter__'', ''__lookupGetter__'', ''__lookupSetter__'']"

definition viridis :: "string list" where
  "viridis = [''#440154'', ''#482878'', ''#3e4989'', ''#31688e'', ''#26828e'',
              ''#1f9e89'', ''#35b779'', ''#6ece58'', ''#b5de2b'', ''#fde725'']"

definition plasma :: "string list" where
  "plasma = [''#0d0887'', ''#46039f'', ''#7201a8'', ''#9c179e'', ''#bd3786'',
             ''#d8576b'', ''#ed7953'', ''#fb9f3a'', ''#fdca26'', ''#f0f921'']"

definition inferno :: "string list" where
  "inferno = [''#000004'', ''#1b0c41'', ''#4a0c6b'', ''#781c6d'', ''#a52c60'',
              ''#cf4446'', ''#ed6925'', ''#fb9b06'', ''#f7d13d'', ''#fcffa4'']"

definition bw :: "string list" where
  "bw = [''#000000'', ''#ffffff'']"

definition colorSchemes :: "string \<Rightarrow> string list option" where
  "colorSchemes =
     map_of [(''viridis'', viridis), (''plasma'', plasma), (''inferno'', inferno), (''bw'', bw)]"

record rgb =
  rgb_r :: int
  rgb_g :: int
  rgb_b :: int

text \<open>\<open>hexToRgb\<close>: \<open>hex.slice(1)\<close> on \<open>undefined\<close> throws.\<close>

definition hexToRgb :: "string option \<Rightarrow> error + rgb" where
  "hexToRgb hex =
     (case hex of
        None \<Rightarrow> Inl TypeError
      | Some s \<Rightarrow>
          let bigint = toInt32 (parseInt16 (drop 1 s))
          in Inr \<lparr> rgb_r = sint (sar32 bigint 16 AND 255),
                   rgb_g = sint (sar32 bigint 8 AND 255),
                   rgb_b = sint (bigint AND 255) \<rparr>)"

definition rgbToHex :: "int \<Rightarrow> int \<Rightarrow> int \<Rightarrow> string" where
  "rgbToHex r g b =
     CHR ''#'' # drop 1 (intToString 16 (shl32 1 24 + shl32 r 16 + shl32 g 8 + b))"

definition interpolate :: "real \<Rightarrow> real \<Rightarrow> real \<Rightarrow> real" where
  "interpolate start end factor = start + (end - start) * factor"

definition interpolateColor :: "string option \<Rightarrow> string option \<Rightarrow> real \<Rightarrow> error + string" where
  "interpolateColor color1 color2 factor =
     (case hexToRgb color1 of
        Inl e \<Rightarrow> Inl e
      | Inr rgb1 \<Rightarrow>
          (case hexToRgb color2 of
             Inl e \<Rightarrow> Inl e
           | Inr rgb2 \<Rightarrow>
               let r = mathRound (interpolate (real_of_int (rgb_r rgb1)) (real_of_int (rgb_r rgb2)) factor);
                   g = mathRound (interpolate (real_of_int (rgb_g rgb1)) (real_of_int (rgb_g rgb2)) factor);
                   b = mathRound (interpolate (real_of_int (rgb_b rgb1)) (real_of_int (rgb_b rgb2)) factor)
               in Inr (rgbToHex r g b)))"

text \<open>
  \<open>getColor\<close>, with the active scheme as its first argument. \<open>colorTable.length\<close> on
  \<open>undefined\<close> throws. The result is a string or \<open>undefined\<close> (the last stop of an empty
  table).
\<close>

definition getColor :: "string \<Rightarrow> real \<Rightarrow> error + string option" where
  "getColor scheme val =
     (case colorSchemes scheme of
        None \<Rightarrow> Inl TypeError
      | Some colorTable \<Rightarrow>
          let scaledValue = val * real_of_int (int (length colorTable) - 1);
              index = \<lfloor>scaledValue\<rfloor>;
              factor = scaledValue - real_of_int index
          in if index \<ge> int (length colorTable) - 1
             then Inr (arrayGet colorTable (int (length colorTable) - 1))
             else map_sum id Some
                    (interpolateColor (arrayGet colorTable index) (arrayGet colorTable (index + 1)) factor))"

definition isHexDigit :: "char \<Rightarrow> bool" where
  "isHexDigit c = (c \<in> set ''0123456789abcdefABCDEF'')"

definition isHexColor :: "string \<Rightarrow> bool" where
  "isHexColor s = (case s of [] \<Rightarrow> False | c # ds \<Rightarrow> c = CHR ''#'' \<and> length ds = 6 \<and> list_all isHexDigit ds)"

text \<open>
  \<open>Number.prototype.toFixed(d)\<close>: the sign, then the integer nearest to \<open>\<bar>x\<bar> * 10^d\<close> (a
  half upwards) in decimal digits, padded with zeros to \<open>d + 1\<close> digits, with the point
  before the last \<open>d\<close> digits. From \<open>10^21\<close> upwards the language switches to the exponent
  notation of \<open>toString\<close>; this embedding keeps the digits there, so statements about the
  text of a number are made below that bound.
\<close>

definition toFixed :: "nat \<Rightarrow> real \<Rightarrow> string" where
  "toFixed d x =
     (let s = (if x < 0 then ''-'' else []);
          n = nat \<lfloor>\<bar>x\<bar> * 10 ^ d + 1 / 2\<rfloor>;
          m = natToString 10 n
      in if d = 0 then s @ m
         else let m' = (if length m \<le> d then replicate (d + 1 - length m) (CHR ''0'') @ m else m);
                  k = length m'
              in s @ take (k - d) m' @ ''.'' @ drop (k - d) m')"

subsection \<open>The heap and the widget\<close>

text \<open>
  The sample sequence is an array of references to sample objects. Arrays are numbered in
  the order of their allocation, so a new array never has the number of an old one; an
  element that is not a sample object (\<open>undefined\<close>) has no entry in \<open>objects\<close>.
\<close>

type_synonym addr = nat

record sample =
  sample_R :: real
  sample_theta :: real
  sample_value :: real

record heap =
  arrays :: "addr list list"
  objects :: "addr \<Rightarrow> sample option"

definition arrayAt :: "heap \<Rightarrow> addr \<Rightarrow> addr list option" where
  "arrayAt h a = (if a < length (arrays h) then Some (arrays h ! a) else None)"

text \<open>\<open>[...data]\<close>: a new array with the elements of \<open>data\<close>; \<open>undefined\<close> is not iterable.\<close>

definition spread :: "heap \<Rightarrow> addr \<Rightarrow> error + heap \<times> addr" where
  "spread h a =
     (case arrayAt h a of
        None \<Rightarrow> Inl TypeError
      | Some xs \<Rightarrow> Inr (h\<lparr>arrays := arrays h @ [xs]\<rparr>, length (arrays h)))"

text \<open>
  What a caller may do to an array it holds: any change of its contents, such as
  \<open>data.push(x)\<close> and \<open>data[i] = x\<close>.
\<close>

definition arrayMutate :: "heap \<Rightarrow> addr \<Rightarrow> (addr list \<Rightarrow> addr list) \<Rightarrow> heap" where
  "arrayMutate h a f = h\<lparr>arrays := (arrays h)[a := f (arrays h ! a)]\<rparr>"

definition arrayPush :: "heap \<Rightarrow> addr \<Rightarrow> addr \<Rightarrow> heap" where
  "arrayPush h a x = arrayMutate h a (\<lambda>xs. xs @ [x])"

definition arrayStore :: "heap \<Rightarrow> addr \<Rightarrow> nat \<Rightarrow> addr \<Rightarrow> heap" where
  "arrayStore h a i x = arrayMutate h a (\<lambda>xs. xs[i := x])"

text \<open>
  \<open>arrayStore\<close> is \<open>data[i] = x\<close> for an index inside the array; beyond its end the
  language lets the array grow, a change that \<open>arrayMutate\<close> covers like any other.
\<close>

text \<open>The calls a 2-D canvas context receives, with their arguments.\<close>

datatype ctx_op =
    ClearRect real real real real
  | SetFillStyle "string option"
  | SetStrokeStyle string
  | FillRect real real real real
  | FillRectNonFinite
  | BeginPath
  | Arc real real real real real
  | Fill
  | Stroke
  | MoveTo real real
  | LineTo real real
  | SetTextAlign string
  | SetTextBaseline string
  | SetFont string
  | FillText string real real
  | Save
  | Restore
  | Translate real real
  | Rotate real

record point =
  point_R :: real
  point_theta :: real

record margins =
  margin_top :: real
  margin_right :: real
  margin_bottom :: real
  margin_left :: real

text \<open>
  The fields of the object, and with them the two things of the host that the methods
  touch: the messages of \<open>console.error\<close> and \<open>window.devicePixelRatio\<close>.
\<close>

record widget =
  width :: real
  height :: real
  margin :: margins
  graphWidth :: real
  graphHeight :: real
  ctx :: "ctx_op list"
  scheme :: string
  rDivisions :: real
  thetaDivisions :: real
  data :: addr
  points :: "point list"
  console :: "string list"
  devicePixelRatio :: "real option"

text \<open>A call returns, or throws and leaves the object as it was at that moment.\<close>

datatype outcome = Returns widget | Throws error widget

fun stateOf :: "outcome \<Rightarrow> widget" where
  "stateOf (Returns w) = w"
| "stateOf (Throws e w) = w"

fun thrown :: "outcome \<Rightarrow> error option" where
  "thrown (Returns w) = None"
| "thrown (Throws e w) = Some e"

subsection \<open>Coordinates\<close>

text \<open>
  The result of an operation on doubles is the exact result rounded to the nearest double,
  a tie going to the even significand. The doubles with exponent \<open>e\<close>, from \<open>2^e\<close> up to
  \<open>2^(e+1)\<close>, are the multiples of \<open>2^(e-52)\<close>; the exponent is at least \<open>-1022\<close>, and below
  \<open>2^(-1022)\<close> the doubles keep the spacing \<open>2^(-1074)\<close>. The rounding of a negative number
  mirrors that of its magnitude. A result beyond the largest double (an infinity in the
  language) is outside the model.
\<close>

definition exponent :: "real \<Rightarrow> int" where
  "exponent x =
     (if 1 \<le> x then bitlen \<lfloor>x\<rfloor> - 1 else max (- bitlen (\<lceil>1 / x\<rceil> - 1)) (- 1022))"

definition roundEven :: "real \<Rightarrow> int" where
  "roundEven y =
     (let n = \<lfloor>y\<rfloor>;
          r = y - real_of_int n
      in if r < 1 / 2 then n else if 1 / 2 < r then n + 1 else if even n then n else n + 1)"

definition roundMagnitude :: "real \<Rightarrow> real" where
  "roundMagnitude x =
     (if x \<le> 0 then 0
      else let ulp = 2 powi (exponent x - 52)
           in real_of_int (roundEven (x / ulp)) * ulp)"

definition roundDouble :: "real \<Rightarrow> real" where
  "roundDouble x = (if x < 0 then - roundMagnitude (- x) else roundMagnitude x)"

text \<open>\<open>scaleX\<close> and \<open>scaleY\<close>, each operation rounded, in the order the language evaluates.\<close>

definition scaleX :: "widget \<Rightarrow> real \<Rightarrow> real" where
  "scaleX w val =
     roundDouble (roundDouble (roundDouble (val / 3) * graphWidth w) + margin_left (margin w))"

definition scaleY :: "widget \<Rightarrow> real \<Rightarrow> real" where
  "scaleY w val =
     roundDouble
       (roundDouble (graphHeight w - roundDouble (roundDouble (val / 180) * graphHeight w))
        + margin_top (margin w))"

subsection \<open>Points\<close>

text \<open>
  The chain of comparisons at the head of \<open>drawPoint\<close>: the regime named by the comment
  of the branch taken and the value given to \<open>phiPrime\<close>, or nothing in the last branch.
  In the earlier version of the class (\<open>StressDomain.js\<close>) the same body is the method
  \<open>addPoint\<close>, and \<open>scaleX\<close> and \<open>scaleY\<close> are the same there.
\<close>

datatype regime = Normal | StrikeSlip | Reverse

definition classify :: "real \<Rightarrow> (regime \<times> real) option" where
  "classify R =
     (if R \<ge> 0 \<and> R < 1 then Some (Normal, R)
      else if R \<ge> 1 \<and> R < 2 then Some (StrikeSlip, 2 - R)
      else if R \<ge> 2 \<and> R \<le> 3 then Some (Reverse, R - 2)
      else None)"

text \<open>The template literal of the label; theta and the degree mark in UTF-8.\<close>

definition pointLabel :: "real \<Rightarrow> real \<Rightarrow> string" where
  "pointLabel R theta =
     ''(R='' @ toFixed 1 R @ '', '' @ [CHR 0xCE, CHR 0xB8] @ ''='' @ toFixed 0 theta
       @ [CHR 0xC2, CHR 0xB0] @ '')''"

text \<open>
  The statements of \<open>drawPoint\<close> after the chain of comparisons, where \<open>phiPrime\<close> is in
  scope: the calls they make on the canvas.
\<close>

definition markerCalls :: "widget \<Rightarrow> real \<Rightarrow> real \<Rightarrow> real \<Rightarrow> ctx_op list" where
  "markerCalls w R theta phiPrime =
     (let x = scaleX w R;
          y = scaleY w theta
      in [BeginPath,
          Arc x y 5 0 (2 * mathPI),
          SetFillStyle (Some ''red''),
          Fill,
          SetStrokeStyle ''black'',
          Stroke,
          SetFillStyle (Some ''rgba(255, 127, 0, 0)''),
          FillRect (scaleX w 0) (margin_top (margin w)) (graphWidth w / 3) (graphHeight w),
          SetFillStyle (Some ''black''),
          SetTextAlign ''left'',
          SetTextBaseline ''bottom'',
          SetFont ''12px Arial'',
          FillText (pointLabel R theta) (x - 30) (y - 10)])"

definition drawPoint :: "widget \<Rightarrow> real \<Rightarrow> real \<Rightarrow> widget" where
  "drawPoint w R theta =
     (case classify R of
        None \<Rightarrow> w\<lparr>console := console w @ [''R value out of range (0-3)'']\<rparr>
      | Some (reg, phiPrime) \<Rightarrow> w\<lparr>ctx := ctx w @ markerCalls w R theta phiPrime\<rparr>)"

text \<open>\<open>this.points.forEach(p => this.drawPoint(p.R, p.theta))\<close>\<close>

fun drawPoints :: "widget \<Rightarrow> point list \<Rightarrow> widget" where
  "drawPoints w [] = w"
| "drawPoints w (p # ps) = drawPoints (drawPoint w (point_R p) (point_theta p)) ps"

subsection \<open>The frame\<close>

text \<open>
  One cell of the grid. A division by zero makes the arguments of \<open>fillRect\<close> infinite or
  \<open>NaN\<close> (and the canvas ignores the call): that call is \<open>FillRectNonFinite\<close>.
\<close>

definition cellRect :: "widget \<Rightarrow> sample \<Rightarrow> ctx_op" where
  "cellRect w p =
     (if rDivisions w = 0 \<or> thetaDivisions w = 0 then FillRectNonFinite
      else let rectWidth = graphWidth w / rDivisions w;
               rectHeight = graphHeight w / thetaDivisions w;
               x = scaleX w (sample_R p) - rectWidth / 2;
               y = scaleY w (sample_theta p) - rectHeight / 2
           in FillRect x y (rectWidth + 1) (rectHeight + 1))"

text \<open>\<open>this.data.forEach(point => ...)\<close>; reading a field of \<open>undefined\<close> throws.\<close>

fun drawCells :: "heap \<Rightarrow> widget \<Rightarrow> addr list \<Rightarrow> outcome" where
  "drawCells h w [] = Returns w"
| "drawCells h w (p # ps) =
     (case objects h p of
        None \<Rightarrow> Throws TypeError w
      | Some pt \<Rightarrow>
          (case getColor (scheme w) (sample_value pt) of
             Inl e \<Rightarrow> Throws e w
           | Inr c \<Rightarrow> drawCells h (w\<lparr>ctx := ctx w @ [SetFillStyle c, cellRect w pt]\<rparr>) ps))"

text \<open>The axes, ticks, titles and regime labels: the rest of \<open>drawVisualization\<close>.\<close>

definition axesCalls :: "widget \<Rightarrow> ctx_op list" where
  "axesCalls w =
     (let axisY = height w - margin_bottom (margin w);
          left = margin_left (margin w);
          top = margin_top (margin w)
      in [SetFillStyle (Some ''#000000''),
          BeginPath,
          MoveTo left axisY,
          LineTo (width w - margin_right (margin w)) axisY,
          MoveTo left top,
          LineTo left axisY,
          MoveTo (scaleX w 1) top,
          LineTo (scaleX w 1) axisY,
          MoveTo (scaleX w 2) top,
          LineTo (scaleX w 2) axisY,
          Stroke,
          SetTextAlign ''center'',
          SetTextBaseline ''top'',
          SetFont ''12px Arial'']
         @ concat (map (\<lambda>i. [MoveTo (scaleX w (real i)) axisY,
                               LineTo (scaleX w (real i)) (axisY + 5),
                               FillText (natToString 10 i) (scaleX w (real i)) (axisY + 10)])
                       [0, 1, 2, 3])
         @ [SetTextAlign ''right'',
            SetTextBaseline ''middle'']
         @ concat (map (\<lambda>i. [MoveTo (left - 5) (scaleY w (real i)),
                               LineTo left (scaleY w (real i)),
                               FillText (natToString 10 i) (left - 10) (scaleY w (real i))])
                       [0, 45, 90, 135, 180])
         @ [Stroke,
            SetTextAlign ''center'',
            SetFont ''14px Arial'',
            FillText ''R'' (width w / 2) (height w - 10),
            Save,
            Translate (left - 30) (height w / 2),
            Rotate (- mathPI / 2),
            FillText ([CHR 0xCE, CHR 0xB8] @ [CHR 0xC2, CHR 0xB0]) 0 0,
            Restore,
            SetTextBaseline ''bottom'',
            FillText ''Normal'' (scaleX w (1 / 2)) (height w - 25),
            FillText ''Strike slip'' (scaleX w (3 / 2)) (height w - 25),
            FillText ''Reverse'' (scaleX w (5 / 2)) (height w - 25)])"

definition drawAxes :: "widget \<Rightarrow> widget" where
  "drawAxes w = w\<lparr>ctx := ctx w @ axesCalls w\<rparr>"

text \<open>\<open>ctx.clearRect(0, 0, this.width * dpr, this.height * dpr)\<close>, with \<open>dpr\<close> 1 by default.\<close>

definition clearCalls :: "widget \<Rightarrow> ctx_op list" where
  "clearCalls w =
     (let dpr = (case devicePixelRatio w of None \<Rightarrow> 1 | Some d \<Rightarrow> if d = 0 then 1 else d)
      in [ClearRect 0 0 (width w * dpr) (height w * dpr)])"

definition drawVisualization :: "heap \<Rightarrow> widget \<Rightarrow> outcome" where
  "drawVisualization h w =
     (let w1 = w\<lparr>ctx := ctx w @ clearCalls w\<rparr>
      in case arrayAt h (data w1) of
           None \<Rightarrow> Throws TypeError w1
         | Some refs \<Rightarrow>
             (case drawCells h w1 refs of
                Throws e w2 \<Rightarrow> Throws e w2
              | Returns w2 \<Rightarrow> Returns (drawAxes (drawPoints w2 (points w2)))))"

subsection \<open>The public methods\<close>

definition setColorTable :: "heap \<Rightarrow> widget \<Rightarrow> string \<Rightarrow> outcome" where
  "setColorTable h w name = drawVisualization h (w\<lparr>scheme := name\<rparr>)"


definition setData :: "heap \<Rightarrow> widget \<Rightarrow> addr \<Rightarrow> real \<Rightarrow> real \<Rightarrow> heap \<times> outcome" where
  "setData h w dataRef nR nTheta =
     (case spread h dataRef of
        Inl e \<Rightarrow> (h, Throws e w)
      | Inr (h', a) \<Rightarrow>
          (h', drawVisualization h' (w\<lparr>data := a, rDivisions := nR, thetaDivisions := nTheta\<rparr>)))"

subsection \<open>Reading a frame\<close>

text \<open>
  The calls of the cell loop on a sample sequence, and the exception that ended it, as a
  function of the scheme and the layout alone.
\<close>

fun cellCalls :: "heap \<Rightarrow> widget \<Rightarrow> addr list \<Rightarrow> ctx_op list \<times> error option" where
  "cellCalls h w [] = ([], None)"
| "cellCalls h w (p # ps) =
     (case objects h p of
        None \<Rightarrow> ([], Some TypeError)
      | Some pt \<Rightarrow>
          (case getColor (scheme w) (sample_value pt) of
             Inl e \<Rightarrow> ([], Some e)
           | Inr c \<Rightarrow> ([SetFillStyle c, cellRect w pt] @ fst (cellCalls h w ps),
                       snd (cellCalls h w ps))))"

text \<open>
  The states of the data model: the scheme is a palette of the table and the sample
  sequence is an array of sample objects with values in \<open>[0,1]\<close>.
\<close>

definition validSamples :: "heap \<Rightarrow> widget \<Rightarrow> bool" where
  "validSamples h w =
     (colorSchemes (scheme w) \<noteq> None \<and>
      (case arrayAt h (data w) of
         None \<Rightarrow> False
       | Some refs \<Rightarrow>
           list_all (\<lambda>r. case objects h r of
                           None \<Rightarrow> False
                         | Some s \<Rightarrow> 0 \<le> sample_value s \<and> sample_value s \<le> 1) refs))"

text \<open>The calls and the console messages of one point of the list.\<close>

definition pointCalls :: "widget \<Rightarrow> point \<Rightarrow> ctx_op list" where
  "pointCalls w p =
     (case classify (point_R p) of
        None \<Rightarrow> []
      | Some (reg, phiPrime) \<Rightarrow> markerCalls w (point_R p) (point_theta p) phiPrime)"

definition pointLog :: "point \<Rightarrow> string list" where
  "pointLog p =
     (case classify (point_R p) of None \<Rightarrow> [''R value out of range (0-3)''] | Some c \<Rightarrow> [])"


text \<open>The markers of a list of calls are its circles, the texts its \<open>fillText\<close> strings.\<close>

fun isArc :: "ctx_op \<Rightarrow> bool" where
  "isArc (Arc x y r a b) = True"
| "isArc c = False"

definition markerCount :: "ctx_op list \<Rightarrow> nat" where
  "markerCount cs = length (filter isArc cs)"

fun textOf :: "ctx_op \<Rightarrow> string list" where
  "textOf (FillText s x y) = [s]"
| "textOf c = []"

definition textsOf :: "ctx_op list \<Rightarrow> string list" where
  "textsOf cs = concat (map textOf cs)"

subsection \<open>An example\<close>

text \<open>
  A widget of 500 by 500 pixels with the margins and the layout the constructor gives it,
  on a grid of two samples, and the heap that holds the two samples.
\<close>

definition exampleHeap :: heap where
  "exampleHeap =
     \<lparr> arrays = [[0, 1]],
       objects = [0 \<mapsto> \<lparr>sample_R = 0, sample_theta = 0, sample_value = 0\<rparr>,
                  1 \<mapsto> \<lparr>sample_R = 3, sample_theta = 180, sample_value = 1\<rparr>] \<rparr>"

definition exampleWidget :: widget where
  "exampleWidget =
     \<lparr> width = 500, height = 500,
       margin = \<lparr>margin_top = 20, margin_right = 20, margin_bottom = 50, margin_left = 40\<rparr>,
       graphWidth = 500 - 40 - 20, graphHeight = 500 - 20 - 50,
       ctx = [], scheme = ''viridis'', rDivisions = 1, thetaDivisions = 1, data = 0,
       points = [], console = [], devicePixelRatio = Some 2 \<rparr>"

section \<open>Properties\<close>

subsection \<open>Colour resolution\<close>

lemma and255_bounds: "0 \<le> sint ((w :: 32 word) AND 255) \<and> sint (w AND 255) \<le> 255"
proof -
  have "w AND 255 \<le> 255" by (rule word_and_le1)
  then have u: "uint (w AND 255) \<le> 255" by (simp add: word_le_def)
  have s: "sint (w AND 255) = signed_take_bit 31 (uint (w AND 255))"
    by (simp add: sint_uint)
  have "signed_take_bit 31 (uint (w AND 255)) = uint (w AND 255)"
    using u by (intro signed_take_bit_int_eq_self) (auto intro: order_trans [OF _ uint_ge_0] order_le_less_trans)
  with s u show ?thesis by simp
qed

lemma shl32_small: "0 \<le> x \<Longrightarrow> x < 256 \<Longrightarrow> n \<le> 16 \<Longrightarrow> shl32 x n = x * 2 ^ n"
proof -
  assume a: "0 \<le> x" "x < 256" "n \<le> 16"
  have "x * 2 ^ n \<le> 255 * 2 ^ n" using a by simp
  also have "\<dots> \<le> 255 * (2::int) ^ 16" using power_increasing[of n 16 "2::int"] a by simp
  finally have b: "x * 2 ^ n < 2 ^ 31" by simp
  have "0 \<le> x * 2 ^ n" using a by simp
  then have c: "- (2 ^ 31) \<le> x * 2 ^ n" by simp
  have "push_bit n (word_of_int x :: 32 word) = word_of_int (x * 2 ^ n)"
    by (simp add: push_bit_eq_mult)
  moreover have "n mod 32 = n" using a by simp
  ultimately have "shl32 x n = sint (word_of_int (x * 2 ^ n) :: 32 word)"
    by (simp only: shl32_def)
  also have "\<dots> = signed_take_bit 31 (x * 2 ^ n)"
    by (simp only: sint_sbintrunc') simp
  also have "\<dots> = x * 2 ^ n" using b c by (rule signed_take_bit_int_eq_self[rotated])
  finally show ?thesis .
qed

lemma round_interp:
  assumes "0 \<le> a" "a \<le> 255" "0 \<le> b" "b \<le> 255" "0 \<le> f" "f \<le> 1"
  shows "0 \<le> mathRound (interpolate (real_of_int a) (real_of_int b) f)
       \<and> mathRound (interpolate (real_of_int a) (real_of_int b) f) \<le> 255"
proof -
  let ?v = "interpolate (real_of_int a) (real_of_int b) f"
  have eq: "?v = (1 - f) * real_of_int a + f * real_of_int b"
    by (simp add: interpolate_def algebra_simps)
  have lo: "0 \<le> ?v" unfolding eq using assms by (intro add_nonneg_nonneg mult_nonneg_nonneg) auto
  have "(1 - f) * real_of_int a \<le> (1 - f) * 255"
    by (rule mult_left_mono) (use assms in auto)
  moreover have "f * real_of_int b \<le> f * 255"
    by (rule mult_left_mono) (use assms in auto)
  ultimately have hi: "?v \<le> 255" unfolding eq by (simp add: algebra_simps)
  from lo have "0 \<le> mathRound ?v" unfolding mathRound_def by linarith
  moreover from hi have "mathRound ?v \<le> 255" unfolding mathRound_def by linarith
  ultimately show ?thesis by simp
qed

lemma digitChar_16: "d < 16 \<Longrightarrow> digitChar d = ''0123456789abcdef'' ! d"
  unfolding digitChar_def
  by (simp add: nth_append[of "''0123456789abcdef''" "''ghijklmnopqrstuvwxyz''" d, simplified])

lemma isHexDigit_digitChar: "d < 16 \<Longrightarrow> isHexDigit (digitChar d)"
proof -
  assume d: "d < 16"
  have "''0123456789abcdef'' ! d \<in> set ''0123456789abcdef''"
    using d by (intro nth_mem) simp
  then show ?thesis unfolding digitChar_16 [OF d] isHexDigit_def by auto
qed

lemma natToString16_digits: "list_all isHexDigit (natToString 16 n)"
proof (induction n rule: less_induct)
  case (less n)
  show ?case
  proof (cases "n < 16")
    case True
    then show ?thesis by (simp add: natToString.simps [of 16 n] isHexDigit_digitChar)
  next
    case False
    then have "n div 16 < n" by simp
    from less [OF this] False show ?thesis
      by (simp add: natToString.simps [of 16 n] isHexDigit_digitChar)
  qed
qed

lemma natToString16_length:
  "16 ^ k \<le> n \<Longrightarrow> n < 16 ^ Suc k \<Longrightarrow> length (natToString 16 n) = Suc k"
proof (induction k arbitrary: n)
  case 0
  then show ?case by (simp add: natToString.simps [of 16 n])
next
  case (Suc k)
  from Suc.prems have ge: "16 \<le> n"
  proof -
    have "(1::nat) \<le> 16 ^ k" by simp
    then have "(16::nat) \<le> 16 ^ Suc k" by simp
    then show ?thesis using Suc.prems(1) by (rule order_trans)
  qed
  have "16 ^ k \<le> n div 16" using Suc.prems(1) by (simp add: less_eq_div_iff_mult_less_eq)
  moreover have "n div 16 < 16 ^ Suc k" using Suc.prems(2) by (simp add: div_less_iff_less_mult)
  ultimately have "length (natToString 16 (n div 16)) = Suc k" by (rule Suc.IH)
  with ge show ?case by (simp add: natToString.simps [of 16 n])
qed

lemma rgbToHex_wellformed:
  assumes "0 \<le> r" "r \<le> 255" "0 \<le> g" "g \<le> 255" "0 \<le> b" "b \<le> 255"
  shows "isHexColor (rgbToHex r g b)"
proof -
  define N where "N = 16777216 + r * 65536 + g * 256 + b"
  have sh: "shl32 1 24 = 16777216" by (simp add: shl32_def)
  have sr: "shl32 r 16 = r * 65536" using shl32_small [of r 16] assms by simp
  have sg: "shl32 g 8 = g * 256" using shl32_small [of g 8] assms by simp
  have N: "shl32 1 24 + shl32 r 16 + shl32 g 8 + b = N" by (simp add: sh sr sg N_def)
  have lo: "16 ^ 6 \<le> nat N" using assms by (simp add: N_def)
  have hi: "nat N < 16 ^ Suc 6" using assms by (simp add: N_def)
  have len: "length (natToString 16 (nat N)) = 7"
    using natToString16_length [OF lo hi] by simp
  have pos: "\<not> N < 0" using assms by (simp add: N_def)
  have "list_all isHexDigit (drop 1 (natToString 16 (nat N)))"
    using natToString16_digits [of "nat N"] unfolding list_all_iff by (blast dest: in_set_dropD)
  with len pos show ?thesis
    by (simp add: rgbToHex_def N intToString_def isHexColor_def)
qed

lemma hexToRgb_Some:
  "\<exists>c. hexToRgb (Some s) = Inr c \<and> 0 \<le> rgb_r c \<and> rgb_r c \<le> 255 \<and> 0 \<le> rgb_g c \<and> rgb_g c \<le> 255
        \<and> 0 \<le> rgb_b c \<and> rgb_b c \<le> 255"
  by (simp add: hexToRgb_def Let_def and255_bounds)

lemma interpolateColor_wellformed:
  assumes "0 \<le> f" "f \<le> 1"
  shows "\<exists>c. interpolateColor (Some s1) (Some s2) f = Inr c \<and> isHexColor c"
proof -
  obtain c1 where c1: "hexToRgb (Some s1) = Inr c1" "0 \<le> rgb_r c1" "rgb_r c1 \<le> 255"
      "0 \<le> rgb_g c1" "rgb_g c1 \<le> 255" "0 \<le> rgb_b c1" "rgb_b c1 \<le> 255"
    using hexToRgb_Some [of s1] by blast
  obtain c2 where c2: "hexToRgb (Some s2) = Inr c2" "0 \<le> rgb_r c2" "rgb_r c2 \<le> 255"
      "0 \<le> rgb_g c2" "rgb_g c2 \<le> 255" "0 \<le> rgb_b c2" "rgb_b c2 \<le> 255"
    using hexToRgb_Some [of s2] by blast
  note rr = round_interp [OF c1(2,3) c2(2,3) assms]
  note rg = round_interp [OF c1(4,5) c2(4,5) assms]
  note rb = round_interp [OF c1(6,7) c2(6,7) assms]
  show ?thesis
    using rgbToHex_wellformed rr rg rb
    by (simp add: interpolateColor_def c1(1) c2(1) Let_def)
qed

lemma getColor_table:
  assumes ct: "colorSchemes name = Some ct" and ne: "ct \<noteq> []" and wf: "list_all isHexColor ct"
    and v: "0 \<le> v" "v \<le> 1"
  shows "\<exists>c. getColor name v = Inr (Some c) \<and> isHexColor c"
proof -
  define n where "n = int (length ct)"
  define scaled where "scaled = v * real_of_int (n - 1)"
  define idx where "idx = \<lfloor>scaled\<rfloor>"
  have n1: "1 \<le> n" using ne by (cases ct) (simp_all add: n_def)
  have s0: "0 \<le> scaled" using v n1 by (simp add: scaled_def)
  then have i0: "0 \<le> idx" by (simp add: idx_def)
  have gc: "getColor name v =
      (if idx \<ge> n - 1 then Inr (arrayGet ct (n - 1))
       else map_sum id Some (interpolateColor (arrayGet ct idx) (arrayGet ct (idx + 1)) (scaled - real_of_int idx)))"
    by (simp add: getColor_def ct Let_def n_def scaled_def idx_def)
  show ?thesis
  proof (cases "idx \<ge> n - 1")
    case True
    have "arrayGet ct (n - 1) = Some (ct ! nat (n - 1))" using n1 ne by (simp add: arrayGet_def n_def)
    moreover have "isHexColor (ct ! nat (n - 1))"
      using wf n1 ne by (simp add: list_all_length n_def)
    ultimately show ?thesis using True by (simp add: gc)
  next
    case False
    then have lt: "idx + 1 < n" by simp
    have a1: "arrayGet ct idx = Some (ct ! nat idx)" using i0 lt by (simp add: arrayGet_def n_def)
    have a2: "arrayGet ct (idx + 1) = Some (ct ! nat (idx + 1))" using i0 lt by (simp add: arrayGet_def n_def)
    have f0: "0 \<le> scaled - real_of_int idx" by (simp add: idx_def)
    have f1: "scaled - real_of_int idx \<le> 1" unfolding idx_def by linarith
    from interpolateColor_wellformed [OF f0 f1, of "ct ! nat idx" "ct ! nat (idx + 1)"]
    show ?thesis using False by (auto simp add: gc a1 a2)
  qed
qed

lemmas eval_hexToRgb = hexToRgb_def parseInt16_def parseHexDigits_def stripHexPrefix_def
  hexDigitValue_def isWhiteSpace_def toInt32_def sar32_def upt_rec Let_def

lemmas eval_rgbToHex = rgbToHex_def shl32_def intToString_def natToString.simps digitChar_def

lemma colorSchemes_cases:
  "colorSchemes name = Some ct \<Longrightarrow>
     name = ''viridis'' \<and> ct = viridis \<or> name = ''plasma'' \<and> ct = plasma \<or>
     name = ''inferno'' \<and> ct = inferno \<or> name = ''bw'' \<and> ct = bw"
  by (simp add: colorSchemes_def split: if_splits)

lemma palette_wellformed:
  "list_all isHexColor viridis" "list_all isHexColor plasma"
  "list_all isHexColor inferno" "list_all isHexColor bw"
  by (simp_all add: viridis_def plasma_def inferno_def bw_def isHexColor_def isHexDigit_def)

lemma interpolateColor_0:
  "hexToRgb (Some s1) = Inr c1 \<Longrightarrow>
   interpolateColor (Some s1) (Some s2) 0 = Inr (rgbToHex (rgb_r c1) (rgb_g c1) (rgb_b c1))"
  using hexToRgb_Some [of s2]
  by (auto simp add: interpolateColor_def interpolate_def mathRound_def Let_def)

lemma first_stops:
  "hexToRgb (Some ''#440154'') = Inr \<lparr>rgb_r = 68, rgb_g = 1, rgb_b = 84\<rparr>"
  "hexToRgb (Some ''#0d0887'') = Inr \<lparr>rgb_r = 13, rgb_g = 8, rgb_b = 135\<rparr>"
  "hexToRgb (Some ''#000004'') = Inr \<lparr>rgb_r = 0, rgb_g = 0, rgb_b = 4\<rparr>"
  "hexToRgb (Some ''#000000'') = Inr \<lparr>rgb_r = 0, rgb_g = 0, rgb_b = 0\<rparr>"
  by (simp_all add: eval_hexToRgb)

lemma first_stops_back:
  "rgbToHex 68 1 84 = ''#440154''" "rgbToHex 13 8 135 = ''#0d0887''"
  "rgbToHex 0 0 4 = ''#000004''" "rgbToHex 0 0 0 = ''#000000''"
  by (simp_all add: eval_rgbToHex)

lemma getColor_0:
  "getColor ''viridis'' 0 = Inr (Some ''#440154'')"
  "getColor ''plasma'' 0 = Inr (Some ''#0d0887'')"
  "getColor ''inferno'' 0 = Inr (Some ''#000004'')"
  "getColor ''bw'' 0 = Inr (Some ''#000000'')"
  by (simp_all add: getColor_def colorSchemes_def viridis_def plasma_def inferno_def bw_def arrayGet_def
      interpolateColor_0 [OF first_stops(1)] interpolateColor_0 [OF first_stops(2)]
      interpolateColor_0 [OF first_stops(3)] interpolateColor_0 [OF first_stops(4)] first_stops_back)

lemma getColor_top:
  assumes ct: "colorSchemes name = Some ct" and ne: "ct \<noteq> []"
    and top: "int (length ct) - 1 \<le> \<lfloor>v * real_of_int (int (length ct) - 1)\<rfloor>"
  shows "getColor name v = Inr (Some (last ct))"
proof -
  have "arrayGet ct (int (length ct) - 1) = Some (last ct)"
    using ne by (simp add: arrayGet_def last_conv_nth nat_diff_distrib')
  with top show ?thesis by (simp add: getColor_def ct Let_def)
qed

lemma getColor_half: "getColor ''viridis'' (1 / 2) = Inr (Some ''#23908c'')"
proof -
  have s: "hexToRgb (Some ''#26828e'') = Inr \<lparr>rgb_r = 38, rgb_g = 130, rgb_b = 142\<rparr>"
    "hexToRgb (Some ''#1f9e89'') = Inr \<lparr>rgb_r = 31, rgb_g = 158, rgb_b = 137\<rparr>"
    by (simp_all add: eval_hexToRgb)
  have i: "interpolateColor (Some ''#26828e'') (Some ''#1f9e89'') (1 / 2) = Inr (rgbToHex 35 144 140)"
    by (simp add: interpolateColor_def s interpolate_def mathRound_def Let_def)
  have r: "rgbToHex 35 144 140 = ''#23908c''" by (simp add: eval_rgbToHex)
  show ?thesis
    by (simp add: getColor_def colorSchemes_def viridis_def arrayGet_def Let_def i r)
qed

lemma getColor_returns:
  assumes "colorSchemes name = Some ct" and "0 \<le> v" and "v \<le> 1"
  shows "\<exists>c. getColor name v = Inr (Some c) \<and> isHexColor c"
proof -
  from colorSchemes_cases [OF assms(1)]
  have "ct \<noteq> []" and "list_all isHexColor ct"
    using palette_wellformed by (auto simp add: viridis_def plasma_def inferno_def bw_def)
  then show ?thesis by (rule getColor_table [OF assms(1) _ _ assms(2,3)])
qed

text \<open>
  Claim C1. For a value in \<open>[0,1]\<close> and a palette of the table, \<open>getColor\<close> returns a
  string made of \<open>#\<close> and six hexadecimal digits; at 0 it returns the first stop of the
  palette and at 1 the last.
\<close>

theorem getColor_in_range:
  assumes "colorSchemes name = Some colorTable" and "0 \<le> val" and "val \<le> 1"
  shows "(\<exists>c. getColor name val = Inr (Some c) \<and> isHexColor c)
       \<and> colorTable \<noteq> []
       \<and> getColor name 0 = Inr (Some (hd colorTable))
       \<and> getColor name 1 = Inr (Some (last colorTable))"
proof -
  from colorSchemes_cases [OF assms(1)]
  have ne: "colorTable \<noteq> []"
    and first: "getColor name 0 = Inr (Some (hd colorTable))"
    using getColor_0
    by (auto simp add: viridis_def plasma_def inferno_def bw_def)
  have "getColor name 1 = Inr (Some (last colorTable))"
    by (rule getColor_top [OF assms(1) ne]) simp
  with getColor_returns [OF assms] ne first show ?thesis by simp
qed

theorem getColor_in_range_witness:
  "colorSchemes ''viridis'' = Some viridis \<and> (0::real) \<le> 1 / 2 \<and> (1::real) / 2 \<le> 1
   \<and> getColor ''viridis'' (1 / 2) = Inr (Some ''#23908c'') \<and> isHexColor ''#23908c''
   \<and> getColor ''viridis'' 0 = Inr (Some ''#440154'')
   \<and> getColor ''viridis'' 1 = Inr (Some ''#fde725'')"
proof -
  have h: "colorSchemes ''viridis'' = Some viridis" by (simp add: colorSchemes_def)
  from getColor_in_range [OF h, of "1 / 2"] h show ?thesis
    by (simp add: viridis_def getColor_half)
qed

text \<open>
  Claim C2, as the code has it. A value above 1, and any value whose scaled index reaches
  the last stop, gives the last stop of the palette unchanged. Below 0 nothing clamps: the
  stop at a negative index is \<open>undefined\<close> and \<open>getColor\<close> throws.
\<close>

theorem getColor_out_of_range:
  assumes "colorSchemes name = Some colorTable"
  shows "(int (length colorTable) - 1 \<le> \<lfloor>val * real_of_int (int (length colorTable) - 1)\<rfloor>
            \<longrightarrow> getColor name val = Inr (Some (last colorTable)))
       \<and> (1 < val \<longrightarrow> getColor name val = Inr (Some (last colorTable)))
       \<and> last colorTable \<in> set colorTable
       \<and> (val < 0 \<longrightarrow> getColor name val = Inl TypeError)"
proof -
  define n where "n = int (length colorTable)"
  from colorSchemes_cases [OF assms]
  have ne: "colorTable \<noteq> []" and n2: "2 \<le> n"
    by (auto simp add: n_def viridis_def plasma_def inferno_def bw_def)
  note top = getColor_top [OF assms ne]
  have above: "getColor name val = Inr (Some (last colorTable))" if "1 < val"
  proof (rule top)
    have "real_of_int (n - 1) * 1 \<le> real_of_int (n - 1) * val"
      by (rule mult_left_mono) (use that n2 in auto)
    then have "real_of_int (n - 1) \<le> val * real_of_int (n - 1)" by (simp add: mult.commute)
    then show "int (length colorTable) - 1 \<le> \<lfloor>val * real_of_int (int (length colorTable) - 1)\<rfloor>"
      unfolding n_def [symmetric] by (simp add: le_floor_iff)
  qed
  have below: "getColor name val = Inl TypeError" if "val < 0"
  proof -
    define sc where "sc = val * real_of_int (n - 1)"
    have gc: "getColor name val =
        (if n - 1 \<le> \<lfloor>sc\<rfloor> then Inr (arrayGet colorTable (n - 1))
         else map_sum id Some (interpolateColor (arrayGet colorTable \<lfloor>sc\<rfloor>)
                (arrayGet colorTable (\<lfloor>sc\<rfloor> + 1)) (sc - real_of_int \<lfloor>sc\<rfloor>)))"
      by (simp add: getColor_def assms Let_def n_def sc_def)
    have "sc < 0"
      unfolding sc_def using that n2 by (simp add: mult_less_0_iff)
    then have neg: "\<lfloor>sc\<rfloor> < 0" by linarith
    then have none: "arrayGet colorTable \<lfloor>sc\<rfloor> = None"
      by (simp add: arrayGet_def)
    from neg n2 have "\<not> n - 1 \<le> \<lfloor>sc\<rfloor>" by linarith
    then show ?thesis
      by (simp add: gc none interpolateColor_def hexToRgb_def)
  qed
  from top above below ne show ?thesis by simp
qed

theorem getColor_out_of_range_witness:
  "colorSchemes ''viridis'' = Some viridis
   \<and> getColor ''viridis'' 2 = Inr (Some ''#fde725'')
   \<and> getColor ''viridis'' (- 1 / 2) = Inl TypeError"
proof -
  have h: "colorSchemes ''viridis'' = Some viridis" by (simp add: colorSchemes_def)
  from getColor_out_of_range [OF h, of 2] getColor_out_of_range [OF h, of "- 1 / 2"] h
  show ?thesis by (simp add: viridis_def)
qed

theorem getColor_negative_counterexample:
  "(- 1 / 2 :: real) < 0 \<and> getColor ''viridis'' (- 1 / 2) = Inl TypeError"
proof -
  have "arrayGet viridis (- 5) = None" by (simp add: arrayGet_def)
  then have "getColor ''viridis'' (- 1 / 2) = Inl TypeError"
    by (simp add: getColor_def colorSchemes_def Let_def interpolateColor_def hexToRgb_def
        viridis_def [THEN arg_cong [of _ _ length], simplified])
  then show ?thesis by simp
qed

subsection \<open>The calls of a frame\<close>

lemma scale_frame [simp]:
  "scaleX (w\<lparr>ctx := c\<rparr>) = scaleX w" "scaleY (w\<lparr>ctx := c\<rparr>) = scaleY w"
  "scaleX (w\<lparr>console := l\<rparr>) = scaleX w" "scaleY (w\<lparr>console := l\<rparr>) = scaleY w"
  "scaleX (w\<lparr>points := ps\<rparr>) = scaleX w" "scaleY (w\<lparr>points := ps\<rparr>) = scaleY w"
  by (simp_all add: scaleX_def scaleY_def fun_eq_iff)

lemma markerCalls_frame [simp]:
  "markerCalls (w\<lparr>ctx := c\<rparr>) = markerCalls w"
  "markerCalls (w\<lparr>console := l\<rparr>) = markerCalls w"
  "markerCalls (w\<lparr>points := ps\<rparr>) = markerCalls w"
  by (simp_all add: markerCalls_def fun_eq_iff)

lemma pointCalls_frame [simp]:
  "pointCalls (w\<lparr>ctx := c\<rparr>) = pointCalls w"
  "pointCalls (w\<lparr>console := l\<rparr>) = pointCalls w"
  "pointCalls (w\<lparr>points := ps\<rparr>) = pointCalls w"
  by (simp_all add: pointCalls_def fun_eq_iff split: option.splits prod.splits)

lemma cellRect_frame [simp]:
  "cellRect (w\<lparr>ctx := c\<rparr>) = cellRect w"
  "cellRect (w\<lparr>points := ps\<rparr>) = cellRect w"
  by (simp_all add: cellRect_def fun_eq_iff)

lemma cellCalls_frame [simp]:
  "cellCalls h (w\<lparr>ctx := c\<rparr>) refs = cellCalls h w refs"
  "cellCalls h (w\<lparr>points := ps\<rparr>) refs = cellCalls h w refs"
  by (induction refs) (simp_all split: option.splits sum.splits)

lemma axesCalls_frame [simp]:
  "axesCalls (w\<lparr>ctx := c\<rparr>) = axesCalls w"
  "axesCalls (w\<lparr>console := l\<rparr>) = axesCalls w"
  "axesCalls (w\<lparr>points := ps\<rparr>) = axesCalls w"
  by (simp_all add: axesCalls_def)

lemma clearCalls_frame [simp]:
  "clearCalls (w\<lparr>points := ps\<rparr>) = clearCalls w"
  "clearCalls (w\<lparr>scheme := s\<rparr>) = clearCalls w"
  "clearCalls (w\<lparr>data := a, rDivisions := nR, thetaDivisions := nT\<rparr>) = clearCalls w"
  by (simp_all add: clearCalls_def)

lemma drawPoint_calls:
  "drawPoint w R theta =
     w\<lparr>ctx := ctx w @ pointCalls w \<lparr>point_R = R, point_theta = theta\<rparr>,
       console := console w @ pointLog \<lparr>point_R = R, point_theta = theta\<rparr>\<rparr>"
  by (simp add: drawPoint_def pointCalls_def pointLog_def split: option.splits)

lemma point_fields [simp]:
  "pointCalls w \<lparr>point_R = point_R p, point_theta = point_theta p\<rparr> = pointCalls w p"
  "pointLog \<lparr>point_R = point_R p, point_theta = point_theta p\<rparr> = pointLog p"
  by (simp_all add: pointCalls_def pointLog_def split: option.splits prod.splits)

lemma drawPoints_calls:
  "drawPoints w ps =
     w\<lparr>ctx := ctx w @ concat (map (pointCalls w) ps),
       console := console w @ concat (map pointLog ps)\<rparr>"
proof (induction ps arbitrary: w)
  case Nil
  show ?case by simp
next
  case (Cons p ps)
  show ?case by (simp add: Cons.IH drawPoint_calls)
qed

lemma drawCells_calls:
  "drawCells h w refs =
     (case snd (cellCalls h w refs) of
        None \<Rightarrow> Returns (w\<lparr>ctx := ctx w @ fst (cellCalls h w refs)\<rparr>)
      | Some e \<Rightarrow> Throws e (w\<lparr>ctx := ctx w @ fst (cellCalls h w refs)\<rparr>))"
proof (induction refs arbitrary: w)
  case Nil
  show ?case by simp
next
  case (Cons p ps)
  show ?case by (simp add: Cons.IH split: option.splits sum.splits)
qed

lemma drawVisualization_calls:
  "drawVisualization h w =
     (case arrayAt h (data w) of
        None \<Rightarrow> Throws TypeError (w\<lparr>ctx := ctx w @ clearCalls w\<rparr>)
      | Some refs \<Rightarrow>
          (case snd (cellCalls h w refs) of
             Some e \<Rightarrow> Throws e (w\<lparr>ctx := ctx w @ clearCalls w @ fst (cellCalls h w refs)\<rparr>)
           | None \<Rightarrow>
               Returns (w\<lparr>ctx := ctx w @ clearCalls w @ fst (cellCalls h w refs)
                                @ concat (map (pointCalls w) (points w)) @ axesCalls w,
                          console := console w @ concat (map pointLog (points w))\<rparr>)))"
  by (simp add: drawVisualization_def Let_def drawCells_calls drawPoints_calls drawAxes_def
      split: option.splits)

lemma classify_None: "classify R = None \<longleftrightarrow> \<not> (0 \<le> R \<and> R \<le> 3)"
  by (auto simp add: classify_def)

lemma markerCount_append [simp]: "markerCount (xs @ ys) = markerCount xs + markerCount ys"
  by (simp add: markerCount_def)

lemma markerCount_fixed [simp]:
  "markerCount (clearCalls w) = 0" "markerCount (axesCalls w) = 0"
  "markerCount (markerCalls w R theta phiPrime) = 1"
  by (simp_all add: markerCount_def clearCalls_def axesCalls_def markerCalls_def Let_def)

lemma markerCount_cells [simp]: "markerCount (fst (cellCalls h w refs)) = 0"
  by (induction refs) (simp_all add: markerCount_def cellRect_def Let_def split: option.splits sum.splits)


subsection \<open>Coordinates\<close>

lemma powi_nat: "0 \<le> k \<Longrightarrow> (2::real) powi k = 2 ^ nat k"
  by (simp add: power_int_def)

lemma powi_neg_nat: "0 \<le> k \<Longrightarrow> (2::real) powi (- k) = 1 / 2 ^ nat k"
  by (simp add: power_int_minus_divide powi_nat)

lemma exponent_large:
  assumes "1 \<le> x"
  shows "0 \<le> exponent x" and "2 powi exponent x \<le> x" and "x < 2 powi (exponent x + 1)"
proof -
  define m where "m = \<lfloor>x\<rfloor>"
  define k where "k = bitlen m"
  have m: "0 < m" using assms by (simp add: m_def)
  have e: "exponent x = k - 1" using assms by (simp add: exponent_def m_def k_def)
  have k: "1 \<le> k" using m bitlen_eq_zero_iff [of m] bitlen_nonneg [of m] by (simp add: k_def)
  from bitlen_bounds [OF m] have lo: "2 ^ nat (k - 1) \<le> m" and hi: "m < 2 ^ nat k"
    by (simp_all add: k_def)
  show "0 \<le> exponent x" using k e by simp
  have "(2::real) powi (k - 1) = real_of_int (2 ^ nat (k - 1))" using k by (simp add: powi_nat)
  also have "\<dots> \<le> real_of_int m" using lo by (simp only: of_int_le_iff)
  also have "\<dots> \<le> x" by (simp add: m_def)
  finally show "2 powi exponent x \<le> x" by (simp add: e)
  have "m + 1 \<le> 2 ^ nat k" using hi by simp
  then have "real_of_int (m + 1) \<le> real_of_int (2 ^ nat k)" by (simp only: of_int_le_iff)
  moreover have "x < real_of_int (m + 1)" unfolding m_def by linarith
  ultimately have "x < real_of_int (2 ^ nat k)" by simp
  also have "\<dots> = 2 powi k" using k by (simp add: powi_nat)
  finally show "x < 2 powi (exponent x + 1)" by (simp add: e)
qed

lemma exponent_small:
  assumes "0 < x" and "x < 1"
  shows "- 1022 \<le> exponent x" and "x < 2 powi (exponent x + 1)"
    and "- 1022 < exponent x \<Longrightarrow> 2 powi exponent x \<le> x"
proof -
  define m where "m = \<lceil>1 / x\<rceil> - 1"
  define k where "k = bitlen m"
  have inv: "1 < 1 / x" using assms by simp
  then have "2 \<le> \<lceil>1 / x\<rceil>" by linarith
  then have m: "0 < m" by (simp add: m_def)
  have e: "exponent x = max (- k) (- 1022)" using assms by (simp add: exponent_def m_def k_def)
  have k: "1 \<le> k" using m bitlen_eq_zero_iff [of m] bitlen_nonneg [of m] by (simp add: k_def)
  from bitlen_bounds [OF m] have lo: "2 ^ nat (k - 1) \<le> m" and hi: "m < 2 ^ nat k"
    by (simp_all add: k_def)
  show "- 1022 \<le> exponent x" by (simp add: e)
  have "(2::real) ^ nat (k - 1) \<le> real_of_int m"
    using lo of_int_le_iff [of "2 ^ nat (k - 1)" m, where ?'a = real] by simp
  moreover have "real_of_int m < 1 / x" unfolding m_def by linarith
  ultimately have "2 ^ nat (k - 1) < 1 / x" by linarith
  then have "x * 2 ^ nat (k - 1) < 1" using assms(1) by (simp add: field_simps)
  then have "x < 1 / 2 ^ nat (k - 1)" by (simp add: field_simps)
  also have "\<dots> = 2 powi (- k + 1)" using k powi_neg_nat [of "k - 1"] by simp
  also have "\<dots> \<le> 2 powi (exponent x + 1)"
    by (rule power_int_increasing) (simp_all add: e)
  finally show "x < 2 powi (exponent x + 1)" .
  show "2 powi exponent x \<le> x" if "- 1022 < exponent x"
  proof -
    from that have ek: "exponent x = - k" by (simp add: e max_def split: if_splits)
    have "m + 1 \<le> 2 ^ nat k" using hi by simp
    then have "real_of_int (m + 1) \<le> (2::real) ^ nat k"
      using of_int_le_iff [of "m + 1" "2 ^ nat k", where ?'a = real] by simp
    moreover have "1 / x \<le> real_of_int (m + 1)" unfolding m_def by linarith
    ultimately have "1 / x \<le> 2 ^ nat k" by linarith
    then have "1 \<le> x * 2 ^ nat k" using assms(1) by (simp add: field_simps)
    then have "1 / 2 ^ nat k \<le> x" by (simp add: field_simps)
    then show ?thesis using k by (simp add: ek powi_neg_nat)
  qed
qed

lemma exponent_bounds:
  assumes "0 < x"
  shows "- 1022 \<le> exponent x" and "x < 2 powi (exponent x + 1)"
    and "- 1022 < exponent x \<Longrightarrow> 2 powi exponent x \<le> x"
  using exponent_large [of x] exponent_small [OF assms] by (cases "1 \<le> x"; simp)+

lemma exponent_unique:
  assumes "2 powi e \<le> x" and "x < 2 powi (e + 1)" and "- 1022 \<le> e"
  shows "exponent x = e"
proof -
  have pos: "0 < x" using assms(1) by (rule less_le_trans [rotated]) simp
  note b = exponent_bounds [OF pos]
  show ?thesis
  proof (rule ccontr)
    assume ne: "exponent x \<noteq> e"
    show False
    proof (cases "exponent x < e")
      case True
      then have "(2::real) powi (exponent x + 1) \<le> 2 powi e"
        by (intro power_int_increasing) simp_all
      with b(2) assms(1) show False by simp
    next
      case False
      with ne have gt: "e < exponent x" by simp
      then have "(2::real) powi (e + 1) \<le> 2 powi exponent x"
        by (intro power_int_increasing) simp_all
      moreover have "2 powi exponent x \<le> x" using gt assms(3) by (intro b(3)) simp
      ultimately show False using assms(2) by simp
    qed
  qed
qed

lemma roundEven_int [simp]: "roundEven (real_of_int n) = n"
  by (simp add: roundEven_def)

lemma roundEven_floor: "\<lfloor>y\<rfloor> \<le> roundEven y" "roundEven y \<le> \<lfloor>y\<rfloor> + 1"
  by (simp_all add: roundEven_def Let_def)

lemma roundEven_mono:
  assumes "y \<le> z"
  shows "roundEven y \<le> roundEven z"
proof (cases "\<lfloor>y\<rfloor> = \<lfloor>z\<rfloor>")
  case True
  with assms show ?thesis by (auto simp add: roundEven_def Let_def)
next
  case False
  with assms have "\<lfloor>y\<rfloor> + 1 \<le> \<lfloor>z\<rfloor>" using floor_mono [OF assms] by simp
  with roundEven_floor(2) [of y] roundEven_floor(1) [of z] show ?thesis by linarith
qed

lemma roundMagnitude_bounds:
  assumes "0 < x"
  shows "roundMagnitude x \<le> 2 powi (exponent x + 1)"
    and "2 powi exponent x \<le> x \<Longrightarrow> 2 powi exponent x \<le> roundMagnitude x"
    and "0 \<le> roundMagnitude x"
proof -
  define u :: real where "u = 2 powi (exponent x - 52)"
  have u: "0 < u" by (simp add: u_def)
  have rm: "roundMagnitude x = real_of_int (roundEven (x / u)) * u"
    using assms by (simp add: roundMagnitude_def u_def Let_def)
  have top: "2 powi (exponent x + 1) = real_of_int (2 ^ 53) * u"
    using power_int_add [of "2::real" "exponent x - 52" 53] by (simp add: u_def ac_simps)
  have bot: "2 powi exponent x = real_of_int (2 ^ 52) * u"
    using power_int_add [of "2::real" "exponent x - 52" 52] by (simp add: u_def ac_simps)
  from exponent_bounds(2) [OF assms] have "x / u \<le> real_of_int (2 ^ 53)"
    unfolding top using u by (simp add: field_simps)
  from roundEven_mono [OF this] have "roundEven (x / u) \<le> 2 ^ 53"
    by (simp only: roundEven_int)
  then have "real_of_int (roundEven (x / u)) \<le> real_of_int (2 ^ 53)" by (simp only: of_int_le_iff)
  then show "roundMagnitude x \<le> 2 powi (exponent x + 1)"
    unfolding rm top using u by (intro mult_right_mono) simp_all
  show "2 powi exponent x \<le> roundMagnitude x" if "2 powi exponent x \<le> x"
  proof -
    from that have "real_of_int (2 ^ 52) \<le> x / u"
      unfolding bot using u by (simp add: field_simps)
    from roundEven_mono [OF this] have "2 ^ 52 \<le> roundEven (x / u)"
      by (simp only: roundEven_int)
    then have "real_of_int (2 ^ 52) \<le> real_of_int (roundEven (x / u))" by (simp only: of_int_le_iff)
    then show ?thesis
      unfolding rm bot using u by (intro mult_right_mono) simp_all
  qed
  have "0 \<le> x / u" using assms u by simp
  then have "real_of_int 0 \<le> x / u" by simp
  from roundEven_mono [OF this] have "0 \<le> roundEven (x / u)" by (simp only: roundEven_int)
  then show "0 \<le> roundMagnitude x" unfolding rm using u by simp
qed

lemma roundMagnitude_nonneg: "0 \<le> roundMagnitude x"
  using roundMagnitude_bounds(3) [of x] by (cases "0 < x") (simp_all add: roundMagnitude_def)

lemma roundMagnitude_mono:
  assumes "x \<le> y"
  shows "roundMagnitude x \<le> roundMagnitude y"
proof (cases "0 < x")
  case False
  then have "roundMagnitude x = 0" by (simp add: roundMagnitude_def)
  then show ?thesis by (simp add: roundMagnitude_nonneg)
next
  case True
  with assms have y: "0 < y" by simp
  note bx = exponent_bounds [OF True] and ey = exponent_bounds [OF y]
  consider "exponent x = exponent y" | "exponent x < exponent y" | "exponent y < exponent x"
    by linarith
  then show ?thesis
  proof cases
    case 1
    define u :: real where "u = 2 powi (exponent y - 52)"
    have u: "0 < u" by (simp add: u_def)
    have "x / u \<le> y / u" using assms u by (simp add: divide_right_mono)
    from roundEven_mono [OF this]
    have "real_of_int (roundEven (x / u)) * u \<le> real_of_int (roundEven (y / u)) * u"
      using u by (intro mult_right_mono) simp_all
    then show ?thesis using True y by (simp add: roundMagnitude_def Let_def 1 u_def)
  next
    case 2
    then have "- 1022 < exponent y" using bx(1) by simp
    then have "2 powi exponent y \<le> y" by (rule ey(3))
    then have "2 powi exponent y \<le> roundMagnitude y" by (rule roundMagnitude_bounds(2) [OF y])
    moreover have "(2::real) powi (exponent x + 1) \<le> 2 powi exponent y"
      using 2 by (intro power_int_increasing) simp_all
    ultimately show ?thesis using roundMagnitude_bounds(1) [OF True] by linarith
  next
    case 3
    then have "- 1022 < exponent x" using ey(1) by simp
    then have "2 powi exponent x \<le> x" by (rule bx(3))
    moreover have "(2::real) powi (exponent y + 1) \<le> 2 powi exponent x"
      using 3 by (intro power_int_increasing) simp_all
    ultimately have False using ey(2) assms by linarith
    then show ?thesis ..
  qed
qed

lemma roundDouble_mono:
  assumes "x \<le> y"
  shows "roundDouble x \<le> roundDouble y"
proof -
  consider "y < 0" | "x < 0" "0 \<le> y" | "0 \<le> x" using assms by linarith
  then show ?thesis
  proof cases
    case 1
    with assms have "x < 0" by simp
    moreover have "roundMagnitude (- y) \<le> roundMagnitude (- x)"
      using assms by (intro roundMagnitude_mono) simp
    ultimately show ?thesis using 1 by (simp add: roundDouble_def)
  next
    case 2
    then show ?thesis
      using roundMagnitude_nonneg [of "- x"] roundMagnitude_nonneg [of y]
      by (simp add: roundDouble_def)
  next
    case 3
    with assms have "0 \<le> y" by simp
    with 3 roundMagnitude_mono [OF assms] show ?thesis by (simp add: roundDouble_def)
  qed
qed

lemma roundDouble_at:
  assumes "2 powi e \<le> x" and "x < 2 powi (e + 1)" and "- 1022 \<le> e"
  shows "roundDouble x = real_of_int (roundEven (x / 2 powi (e - 52))) * 2 powi (e - 52)"
proof -
  have pos: "0 < x" using assms(1) by (rule less_le_trans [rotated]) simp
  with exponent_unique [OF assms] show ?thesis
    by (simp add: roundDouble_def roundMagnitude_def Let_def)
qed

lemma roundDouble_0 [simp]: "roundDouble 0 = 0"
  by (simp add: roundDouble_def roundMagnitude_def)

lemma example_roundings:
  "roundDouble 40 = 40" "roundDouble 440 = 440" "roundDouble 480 = 480"
  "roundDouble 430 = 430" "roundDouble 450 = 450" "roundDouble 20 = 20"
  "roundDouble 1 = 1"
  "roundDouble (1 / 2 ^ 60) = 1 / 2 ^ 60"
  "roundDouble (440 / 2 ^ 60) = 440 / 2 ^ 60"
  "roundDouble (430 / 2 ^ 60) = 430 / 2 ^ 60"
  "roundDouble (440 / 2 ^ 60 + 40) = 40"
  "roundDouble (430 - 430 / 2 ^ 60) = 430"
  using roundDouble_at [of 5 40] roundDouble_at [of 8 440] roundDouble_at [of 8 480]
    roundDouble_at [of 8 430] roundDouble_at [of 8 450] roundDouble_at [of 4 20]
    roundDouble_at [of 0 1]
    roundDouble_at [of "- 60" "1 / 2 ^ 60"] roundDouble_at [of "- 52" "440 / 2 ^ 60"]
    roundDouble_at [of "- 52" "430 / 2 ^ 60"] roundDouble_at [of 5 "440 / 2 ^ 60 + 40"]
    roundDouble_at [of 8 "430 - 430 / 2 ^ 60"]
  by (simp_all add: roundEven_def Let_def)

lemma example_scale:
  "scaleX exampleWidget 0 = 40" "scaleX exampleWidget (3 / 2 ^ 60) = 40"
  "scaleX exampleWidget 3 = 480"
  "scaleY exampleWidget 0 = 450" "scaleY exampleWidget (180 / 2 ^ 60) = 450"
  "scaleY exampleWidget 180 = 20"
proof -
  have g: "graphWidth exampleWidget = 440" "margin_left (margin exampleWidget) = 40"
    "graphHeight exampleWidget = 430" "margin_top (margin exampleWidget) = 20"
    by (simp_all add: exampleWidget_def)
  have a: "(3 / 2 ^ 60 :: real) / 3 = 1 / 2 ^ 60" "(180 / 2 ^ 60 :: real) / 180 = 1 / 2 ^ 60"
    "(1 / 2 ^ 60 :: real) * 440 = 440 / 2 ^ 60" "(1 / 2 ^ 60 :: real) * 430 = 430 / 2 ^ 60"
    "(430 + 20 :: real) = 450"
    by simp_all
  show "scaleX exampleWidget (3 / 2 ^ 60) = 40"
    by (simp only: scaleX_def g a example_roundings)
  show "scaleY exampleWidget (180 / 2 ^ 60) = 450"
    by (simp only: scaleY_def g a example_roundings)
  show "scaleX exampleWidget 0 = 40" "scaleX exampleWidget 3 = 480"
    "scaleY exampleWidget 0 = 450" "scaleY exampleWidget 180 = 20"
    by (simp_all add: scaleX_def scaleY_def g example_roundings)
qed

lemma scaleX_mono:
  assumes "0 < graphWidth w" and "a \<le> b"
  shows "scaleX w a \<le> scaleX w b"
proof -
  have "roundDouble (a / 3) \<le> roundDouble (b / 3)"
    using assms(2) by (intro roundDouble_mono) simp
  then have "roundDouble (a / 3) * graphWidth w \<le> roundDouble (b / 3) * graphWidth w"
    using assms(1) by (intro mult_right_mono) simp_all
  then have "roundDouble (roundDouble (a / 3) * graphWidth w)
           \<le> roundDouble (roundDouble (b / 3) * graphWidth w)"
    by (rule roundDouble_mono)
  then show ?thesis unfolding scaleX_def by (intro roundDouble_mono) simp
qed

lemma scaleY_mono:
  assumes "0 < graphHeight w" and "a \<le> b"
  shows "scaleY w b \<le> scaleY w a"
proof -
  have "roundDouble (a / 180) \<le> roundDouble (b / 180)"
    using assms(2) by (intro roundDouble_mono) simp
  then have "roundDouble (a / 180) * graphHeight w \<le> roundDouble (b / 180) * graphHeight w"
    using assms(1) by (intro mult_right_mono) simp_all
  then have "roundDouble (roundDouble (a / 180) * graphHeight w)
           \<le> roundDouble (roundDouble (b / 180) * graphHeight w)"
    by (rule roundDouble_mono)
  then have "roundDouble (graphHeight w - roundDouble (roundDouble (b / 180) * graphHeight w))
           \<le> roundDouble (graphHeight w - roundDouble (roundDouble (a / 180) * graphHeight w))"
    by (intro roundDouble_mono) simp
  then show ?thesis unfolding scaleY_def by (intro roundDouble_mono) simp
qed

text \<open>
  Claim C4, as the code has it. With a positive graph width and height, \<open>scaleX\<close> never
  decreases and \<open>scaleY\<close> never increases (the axis is inverted) as the input grows, on
  \<open>[0,3]\<close> and \<open>[0,180]\<close> as everywhere. The order is not strict: every operation rounds to
  a double, and two inputs that are close enough get the same pixel.
\<close>

theorem scale_weakly_monotone:
  assumes "0 < graphWidth w" and "0 < graphHeight w" and "a \<le> b"
  shows "scaleX w a \<le> scaleX w b \<and> scaleY w a \<ge> scaleY w b"
  using scaleX_mono [OF assms(1,3)] scaleY_mono [OF assms(2,3)] by simp

theorem scale_weakly_monotone_witness:
  "0 < graphWidth exampleWidget \<and> 0 < graphHeight exampleWidget \<and> (0::real) \<le> 3
   \<and> scaleX exampleWidget 0 \<le> scaleX exampleWidget 3
   \<and> scaleY exampleWidget 0 \<ge> scaleY exampleWidget 3
   \<and> scaleX exampleWidget 0 = 40 \<and> scaleX exampleWidget 3 = 480"
proof -
  have g: "0 < graphWidth exampleWidget" "0 < graphHeight exampleWidget"
    by (simp_all add: exampleWidget_def)
  have le: "(0::real) \<le> 3" by simp
  from scale_weakly_monotone [OF g le] g le example_scale(1,3) show ?thesis by blast
qed

theorem scale_strict_counterexample:
  "0 < graphWidth exampleWidget \<and> 0 < graphHeight exampleWidget
   \<and> (0::real) < 3 / 2 ^ 60 \<and> (3::real) / 2 ^ 60 \<le> 3
   \<and> \<not> scaleX exampleWidget 0 < scaleX exampleWidget (3 / 2 ^ 60)
   \<and> (0::real) < 180 / 2 ^ 60 \<and> (180::real) / 2 ^ 60 \<le> 180
   \<and> \<not> scaleY exampleWidget 0 > scaleY exampleWidget (180 / 2 ^ 60)"
proof -
  have g: "0 < graphWidth exampleWidget" "0 < graphHeight exampleWidget"
    by (simp_all add: exampleWidget_def)
  have d: "(0::real) < 3 / 2 ^ 60" "(3::real) / 2 ^ 60 \<le> 3"
    "(0::real) < 180 / 2 ^ 60" "(180::real) / 2 ^ 60 \<le> 180"
    by simp_all
  have "\<not> scaleX exampleWidget 0 < scaleX exampleWidget (3 / 2 ^ 60)"
    "\<not> scaleY exampleWidget 0 > scaleY exampleWidget (180 / 2 ^ 60)"
    by (simp_all only: example_scale less_irrefl not_False_eq_True)
  with g d show ?thesis by blast
qed

subsection \<open>Drawing points\<close>

text \<open>
  Claim C7. \<open>drawPoint\<close> puts \<open>R\<close> in the regime Normal on \<open>[0,1)\<close>, Strike-slip on \<open>[1,2)\<close>
  and Reverse on \<open>[2,3]\<close>, with \<open>phiPrime\<close> being \<open>R\<close>, \<open>2 - R\<close> and \<open>R - 2\<close>; whatever the
  value of \<open>phiPrime\<close>, the calls that draw the marker are the same.
\<close>

theorem drawPoint_regimes:
  "(0 \<le> R \<and> R < 1 \<longrightarrow> classify R = Some (Normal, R))
   \<and> (1 \<le> R \<and> R < 2 \<longrightarrow> classify R = Some (StrikeSlip, 2 - R))
   \<and> (2 \<le> R \<and> R \<le> 3 \<longrightarrow> classify R = Some (Reverse, R - 2))
   \<and> (0 \<le> R \<and> R \<le> 3 \<longrightarrow>
        classify R \<noteq> None
        \<and> (\<forall>p. drawPoint w R theta = w\<lparr>ctx := ctx w @ markerCalls w R theta p\<rparr>))"
  by (auto simp add: classify_def drawPoint_def markerCalls_def)

theorem drawPoint_regimes_witness:
  "classify (1 / 2) = Some (Normal, 1 / 2)
   \<and> classify (3 / 2) = Some (StrikeSlip, 1 / 2)
   \<and> classify (5 / 2) = Some (Reverse, 1 / 2)
   \<and> classify 0 = Some (Normal, 0) \<and> classify 1 = Some (StrikeSlip, 1)
   \<and> classify 2 = Some (Reverse, 0) \<and> classify 3 = Some (Reverse, 1)
   \<and> drawPoint exampleWidget (5 / 2) 30
         = exampleWidget\<lparr>ctx := ctx exampleWidget @ markerCalls exampleWidget (5 / 2) 30 0\<rparr>"
  using drawPoint_regimes [of "1 / 2"] drawPoint_regimes [of "3 / 2"]
    drawPoint_regimes [of "5 / 2" exampleWidget 30] drawPoint_regimes [of 0] drawPoint_regimes [of 1]
    drawPoint_regimes [of 2] drawPoint_regimes [of 3]
  by simp

text \<open>
  Claim C3. For \<open>R\<close> outside \<open>[0,3]\<close>, \<open>drawPoint\<close> logs the message and changes nothing
  else; the loop over the points goes on with the points that follow, the canvas receives
  the calls it would receive without that point, and the frame ends as it would without it.
\<close>

theorem drawPoint_out_of_range:
  assumes "\<not> (0 \<le> R \<and> R \<le> 3)"
  shows "drawPoint w R theta = w\<lparr>console := console w @ [''R value out of range (0-3)'']\<rparr>
       \<and> drawPoints w (ps @ \<lparr>point_R = R, point_theta = theta\<rparr> # qs)
           = drawPoints ((drawPoints w ps)\<lparr>console := console (drawPoints w ps)
                                                  @ [''R value out of range (0-3)'']\<rparr>) qs
       \<and> ctx (drawPoints w (ps @ \<lparr>point_R = R, point_theta = theta\<rparr> # qs))
           = ctx (drawPoints w (ps @ qs))
       \<and> thrown (drawVisualization h (w\<lparr>points := ps @ \<lparr>point_R = R, point_theta = theta\<rparr> # qs\<rparr>))
           = thrown (drawVisualization h (w\<lparr>points := ps @ qs\<rparr>))
       \<and> ctx (stateOf (drawVisualization h (w\<lparr>points := ps @ \<lparr>point_R = R, point_theta = theta\<rparr> # qs\<rparr>)))
           = ctx (stateOf (drawVisualization h (w\<lparr>points := ps @ qs\<rparr>)))"
proof -
  let ?p = "\<lparr>point_R = R, point_theta = theta\<rparr>"
  from assms have none: "classify R = None" by (simp add: classify_None)
  then have calls: "pointCalls w ?p = []" and log: "pointLog ?p = [''R value out of range (0-3)'']"
    by (simp_all add: pointCalls_def pointLog_def)
  have one: "drawPoint w R theta = w\<lparr>console := console w @ [''R value out of range (0-3)'']\<rparr>"
    by (simp add: drawPoint_def none)
  have loop: "drawPoints w (ps @ ?p # qs)
           = drawPoints ((drawPoints w ps)\<lparr>console := console (drawPoints w ps)
                                                  @ [''R value out of range (0-3)'']\<rparr>) qs"
    by (simp add: drawPoints_calls calls log)
  have same: "ctx (drawPoints w (ps @ ?p # qs)) = ctx (drawPoints w (ps @ qs))"
    by (simp add: drawPoints_calls calls)
  have thr: "thrown (drawVisualization h (w\<lparr>points := ps @ ?p # qs\<rparr>))
           = thrown (drawVisualization h (w\<lparr>points := ps @ qs\<rparr>))"
    by (simp add: drawVisualization_calls split: option.splits)
  have fr: "ctx (stateOf (drawVisualization h (w\<lparr>points := ps @ ?p # qs\<rparr>)))
           = ctx (stateOf (drawVisualization h (w\<lparr>points := ps @ qs\<rparr>)))"
    by (simp add: drawVisualization_calls calls split: option.splits)
  from one loop same thr fr show ?thesis by simp
qed

theorem drawPoint_out_of_range_witness:
  "\<not> (0 \<le> (4::real) \<and> (4::real) \<le> 3)
   \<and> drawPoint exampleWidget 4 60 = exampleWidget\<lparr>console := [''R value out of range (0-3)'']\<rparr>
   \<and> ctx (drawPoints exampleWidget
            [\<lparr>point_R = 1 / 2, point_theta = 60\<rparr>, \<lparr>point_R = 4, point_theta = 60\<rparr>,
             \<lparr>point_R = 5 / 2, point_theta = 30\<rparr>])
       = ctx (drawPoints exampleWidget
            [\<lparr>point_R = 1 / 2, point_theta = 60\<rparr>, \<lparr>point_R = 5 / 2, point_theta = 30\<rparr>])
   \<and> thrown (drawVisualization exampleHeap (exampleWidget\<lparr>points :=
            [\<lparr>point_R = 1 / 2, point_theta = 60\<rparr>, \<lparr>point_R = 4, point_theta = 60\<rparr>,
             \<lparr>point_R = 5 / 2, point_theta = 30\<rparr>]\<rparr>))
       = thrown (drawVisualization exampleHeap (exampleWidget\<lparr>points :=
            [\<lparr>point_R = 1 / 2, point_theta = 60\<rparr>, \<lparr>point_R = 5 / 2, point_theta = 30\<rparr>]\<rparr>))"
proof -
  have c: "console exampleWidget = []" by (simp add: exampleWidget_def)
  have out: "\<not> (0 \<le> (4::real) \<and> (4::real) \<le> 3)" by simp
  note t = drawPoint_out_of_range [OF out, of exampleWidget 60 "[\<lparr>point_R = 1 / 2, point_theta = 60\<rparr>]"
      "[\<lparr>point_R = 5 / 2, point_theta = 30\<rparr>]" exampleHeap, unfolded append_Cons append_Nil c]
  from t out show ?thesis by blast
qed

lemma cellCalls_valid:
  assumes "colorSchemes (scheme w) \<noteq> None"
    and "list_all (\<lambda>r. case objects h r of
                         None \<Rightarrow> False
                       | Some s \<Rightarrow> 0 \<le> sample_value s \<and> sample_value s \<le> 1) refs"
  shows "snd (cellCalls h w refs) = None"
  using assms(2)
proof (induction refs)
  case Nil
  show ?case by simp
next
  case (Cons r refs)
  from Cons.prems obtain s where s: "objects h r = Some s" "0 \<le> sample_value s" "sample_value s \<le> 1"
    by (auto split: option.splits)
  from assms(1) obtain ct where "colorSchemes (scheme w) = Some ct" by blast
  from getColor_returns [OF this s(2,3)]
  obtain c where "getColor (scheme w) (sample_value s) = Inr (Some c)" by blast
  with Cons s(1) show ?case by simp
qed


lemma valid_returns: "validSamples h w \<Longrightarrow> thrown (drawVisualization h w) = None"
  by (auto simp add: validSamples_def drawVisualization_calls cellCalls_valid split: option.splits)



subsection \<open>Replacing the data\<close>

lemma cellCalls_heap [simp]: "cellCalls (h\<lparr>arrays := as\<rparr>) w refs = cellCalls h w refs"
  by (induction refs) (simp_all split: option.splits sum.splits)

lemma cellCalls_thrown_grid [simp]:
  "snd (cellCalls h (w\<lparr>data := a, rDivisions := nR, thetaDivisions := nT\<rparr>) refs)
     = snd (cellCalls h w refs)"
  by (induction refs) (simp_all split: option.splits sum.splits)

lemma spread_Some:
  "arrayAt h a = Some xs \<Longrightarrow> spread h a = Inr (h\<lparr>arrays := arrays h @ [xs]\<rparr>, length (arrays h))"
  by (simp add: spread_def)

lemma arrayAt_spread:
  "arrayAt (h\<lparr>arrays := arrays h @ [xs]\<rparr>) (length (arrays h)) = Some xs"
  "arrayAt h a = Some ys \<Longrightarrow> arrayAt (h\<lparr>arrays := arrays h @ [xs]\<rparr>) a = Some ys"
  by (auto simp add: arrayAt_def nth_append split: if_splits)

lemma setData_calls:
  assumes "arrayAt h dataRef = Some xs"
  shows "setData h w dataRef nR nTheta =
     (h\<lparr>arrays := arrays h @ [xs]\<rparr>,
      drawVisualization (h\<lparr>arrays := arrays h @ [xs]\<rparr>)
        (w\<lparr>data := length (arrays h), rDivisions := nR, thetaDivisions := nTheta\<rparr>))"
  by (simp add: setData_def spread_Some [OF assms])

text \<open>
  Claim C5. After \<open>setData(data, nR, nTheta)\<close> the sample sequence of the widget is the
  sequence supplied and the grid has the dimensions supplied; the call is one redraw of the
  widget in that state, and the sequence it had before plays no part. Nothing compares the
  length with the dimensions: whether the call throws, and what it logs, is the same for
  all \<open>nR\<close> and \<open>nTheta\<close>.
\<close>

theorem setData_replaces:
  assumes "arrayAt h dataRef = Some xs"
  shows "(let r = setData h w dataRef nR nTheta; h' = fst r; out = snd r
          in arrayAt h' (data (stateOf out)) = Some xs
           \<and> objects h' = objects h
           \<and> rDivisions (stateOf out) = nR \<and> thetaDivisions (stateOf out) = nTheta
           \<and> out = drawVisualization h'
                     (w\<lparr>data := length (arrays h), rDivisions := nR, thetaDivisions := nTheta\<rparr>)
           \<and> setData h (w\<lparr>data := d\<rparr>) dataRef nR nTheta = r
           \<and> thrown out = snd (cellCalls h w xs)
           \<and> thrown (snd (setData h w dataRef nR' nTheta')) = thrown out
           \<and> console (stateOf (snd (setData h w dataRef nR' nTheta'))) = console (stateOf out)
           \<and> (validSamples h' (stateOf out) \<longrightarrow>
                 thrown out = None
                 \<and> console (stateOf out) = console w @ concat (map pointLog (points w))))"
proof -
  let ?h = "h\<lparr>arrays := arrays h @ [xs]\<rparr>"
  let ?w = "w\<lparr>data := length (arrays h), rDivisions := nR, thetaDivisions := nTheta\<rparr>"
  have st: "validSamples ?h (stateOf (drawVisualization ?h ?w)) = validSamples ?h ?w"
    by (simp add: validSamples_def drawVisualization_calls arrayAt_spread split: option.splits)
  have "thrown (drawVisualization ?h ?w) = None
      \<and> console (stateOf (drawVisualization ?h ?w)) = console w @ concat (map pointLog (points w))"
    if "validSamples ?h ?w"
    using valid_returns [OF that]
    by (auto simp add: drawVisualization_calls arrayAt_spread split: option.splits)
  then show ?thesis
    by (simp add: setData_calls [OF assms] Let_def st)
      (simp add: drawVisualization_calls arrayAt_spread split: option.splits)
qed

theorem setData_replaces_witness:
  "arrayAt exampleHeap 0 = Some [0, 1]
   \<and> arrayAt (fst (setData exampleHeap exampleWidget 0 5 7))
        (data (stateOf (snd (setData exampleHeap exampleWidget 0 5 7)))) = Some [0, 1]
   \<and> rDivisions (stateOf (snd (setData exampleHeap exampleWidget 0 5 7))) = 5
   \<and> thetaDivisions (stateOf (snd (setData exampleHeap exampleWidget 0 5 7))) = 7
   \<and> thrown (snd (setData exampleHeap exampleWidget 0 1 1))
       = thrown (snd (setData exampleHeap exampleWidget 0 5 7))
   \<and> validSamples (fst (setData exampleHeap exampleWidget 0 5 7))
        (stateOf (snd (setData exampleHeap exampleWidget 0 5 7)))
   \<and> thrown (snd (setData exampleHeap exampleWidget 0 5 7)) = None"
proof -
  have a: "arrayAt exampleHeap 0 = Some [0, 1]"
    by (simp add: arrayAt_def exampleHeap_def)
  note t = setData_replaces [OF a, of exampleWidget 5 7 0 1 1, unfolded Let_def]
  from t have d: "arrayAt (fst (setData exampleHeap exampleWidget 0 5 7))
        (data (stateOf (snd (setData exampleHeap exampleWidget 0 5 7)))) = Some [0, 1]"
    and o: "objects (fst (setData exampleHeap exampleWidget 0 5 7)) = objects exampleHeap"
    and e: "snd (setData exampleHeap exampleWidget 0 5 7)
          = drawVisualization (fst (setData exampleHeap exampleWidget 0 5 7))
              (exampleWidget\<lparr>data := length (arrays exampleHeap), rDivisions := 5,
                               thetaDivisions := 7\<rparr>)"
    by blast+
  have "scheme (stateOf (snd (setData exampleHeap exampleWidget 0 5 7))) = ''viridis''"
    unfolding e by (simp add: drawVisualization_calls exampleWidget_def split: option.splits)
  then have v: "validSamples (fst (setData exampleHeap exampleWidget 0 5 7))
        (stateOf (snd (setData exampleHeap exampleWidget 0 5 7)))"
    by (simp add: validSamples_def d o colorSchemes_def) (simp add: exampleHeap_def)
  from t a v show ?thesis by blast
qed

text \<open>
  Claim C10. \<open>setData\<close> keeps a new array with the elements of the array supplied: whatever
  the caller does to its own array afterwards, the sequence of the widget is the one that
  was supplied.
\<close>

theorem setData_copies:
  assumes "arrayAt h dataRef = Some xs"
  shows "(let r = setData h w dataRef nR nTheta; h' = fst r; w' = stateOf (snd r)
          in data w' \<noteq> dataRef
           \<and> arrayAt h' (data w') = Some xs
           \<and> arrayAt h' dataRef = Some xs
           \<and> (\<forall>f. arrayAt (arrayMutate h' dataRef f) (data w') = Some xs
                 \<and> arrayAt (arrayMutate h' dataRef f) dataRef = Some (f xs))
           \<and> (\<forall>x. arrayAt (arrayPush h' dataRef x) (data w') = Some xs)
           \<and> (\<forall>i x. i < length xs \<longrightarrow>
                 arrayAt (arrayStore h' dataRef i x) (data w') = Some xs
                 \<and> arrayAt (arrayStore h' dataRef i x) dataRef = Some (xs[i := x])))"
proof -
  define h' where "h' = h\<lparr>arrays := arrays h @ [xs]\<rparr>"
  define a where "a = length (arrays h)"
  from assms have lt: "dataRef < a" and old: "arrays h ! dataRef = xs"
    by (auto simp add: arrayAt_def a_def split: if_splits)
  have st: "data (stateOf (drawVisualization h' (w\<lparr>data := a, rDivisions := nR, thetaDivisions := nTheta\<rparr>))) = a"
    by (simp add: drawVisualization_calls split: option.splits)
  have mut: "arrayAt (arrayMutate h' dataRef f) a = Some xs
           \<and> arrayAt (arrayMutate h' dataRef f) dataRef = Some (f xs)" for f
    using lt old by (simp add: arrayMutate_def arrayAt_def h'_def a_def nth_append)
  have new: "arrayAt h' a = Some xs" "arrayAt h' dataRef = Some xs"
    using arrayAt_spread(1) [of h xs] arrayAt_spread(2) [OF assms, of xs]
    by (simp_all add: h'_def a_def)
  show ?thesis
    using lt mut new
    by (simp add: setData_calls [OF assms] Let_def h'_def [symmetric] a_def [symmetric] st
        arrayPush_def arrayStore_def)
qed

theorem setData_copies_witness:
  "arrayAt exampleHeap 0 = Some [0, 1]
   \<and> data (stateOf (snd (setData exampleHeap exampleWidget 0 5 7))) \<noteq> 0
   \<and> arrayAt (arrayPush (fst (setData exampleHeap exampleWidget 0 5 7)) 0 1)
        (data (stateOf (snd (setData exampleHeap exampleWidget 0 5 7)))) = Some [0, 1]
   \<and> arrayAt (arrayPush (fst (setData exampleHeap exampleWidget 0 5 7)) 0 1) 0 = Some [0, 1, 1]
   \<and> arrayAt (arrayStore (fst (setData exampleHeap exampleWidget 0 5 7)) 0 0 1)
        (data (stateOf (snd (setData exampleHeap exampleWidget 0 5 7)))) = Some [0, 1]
   \<and> arrayAt (arrayStore (fst (setData exampleHeap exampleWidget 0 5 7)) 0 0 1) 0 = Some [1, 1]"
proof -
  have a: "arrayAt exampleHeap 0 = Some [0, 1]"
    by (simp add: arrayAt_def exampleHeap_def)
  note t = setData_copies [OF a, of exampleWidget 5 7, unfolded Let_def]
  from t have "arrayAt (arrayMutate (fst (setData exampleHeap exampleWidget 0 5 7)) 0 (\<lambda>xs. xs @ [1])) 0
      = Some ([0, 1] @ [1])"
    by blast
  then have p: "arrayAt (arrayPush (fst (setData exampleHeap exampleWidget 0 5 7)) 0 1) 0 = Some [0, 1, 1]"
    by (simp add: arrayPush_def)
  have l: "(0::nat) < length [0::nat, 1]" by simp
  from t l have "arrayAt (arrayStore (fst (setData exampleHeap exampleWidget 0 5 7)) 0 0 1)
        (data (stateOf (snd (setData exampleHeap exampleWidget 0 5 7)))) = Some [0, 1]
      \<and> arrayAt (arrayStore (fst (setData exampleHeap exampleWidget 0 5 7)) 0 0 1) 0
        = Some ([0, 1][0 := 1])"
    by blast
  then have s: "arrayAt (arrayStore (fst (setData exampleHeap exampleWidget 0 5 7)) 0 0 1)
        (data (stateOf (snd (setData exampleHeap exampleWidget 0 5 7)))) = Some [0, 1]
      \<and> arrayAt (arrayStore (fst (setData exampleHeap exampleWidget 0 5 7)) 0 0 1) 0 = Some [1, 1]"
    by simp
  from t a p s show ?thesis by blast
qed

subsection \<open>Changing the palette\<close>

lemma getColor_unknown: "colorSchemes name = None \<Longrightarrow> getColor name v = Inl TypeError"
  by (simp add: getColor_def)

lemma cellCalls_unknown:
  "colorSchemes name = None \<Longrightarrow> cellCalls h (w\<lparr>scheme := name\<rparr>) (r # rs) = ([], Some TypeError)"
  by (simp add: getColor_unknown split: option.splits)

lemma setColorTable_throws:
  assumes "colorSchemes name = None" and "arrayAt h (data w) = Some (r # rs)"
  shows "setColorTable h w name = Throws TypeError (w\<lparr>scheme := name, ctx := ctx w @ clearCalls w\<rparr>)"
  by (simp add: setColorTable_def drawVisualization_calls assms(2) cellCalls_unknown [OF assms(1)]
      del: cellCalls.simps)

text \<open>
  Claim C9, as the code has it. \<open>setColorTable\<close> stores the name unchecked and redraws.
  With a name that is not in the table (and is not inherited from \<open>Object.prototype\<close>)
  every colour resolution throws, and the first one happens in the redraw of
  \<open>setColorTable\<close> itself: on a widget with samples the call throws after clearing the
  canvas, with the name stored; it returns only when the sample sequence is empty.
\<close>

theorem setColorTable_unknown:
  assumes "colorSchemes name = None" and "name \<notin> set inheritedNames"
  shows "setColorTable h w name = drawVisualization h (w\<lparr>scheme := name\<rparr>)
       \<and> scheme (stateOf (setColorTable h w name)) = name
       \<and> (\<forall>v. getColor name v = Inl TypeError)
       \<and> (arrayAt h (data w) = Some [] \<longrightarrow> thrown (setColorTable h w name) = None)
       \<and> (\<forall>r rs. arrayAt h (data w) = Some (r # rs) \<longrightarrow>
             setColorTable h w name
               = Throws TypeError (w\<lparr>scheme := name, ctx := ctx w @ clearCalls w\<rparr>))"
proof -
  have "scheme (stateOf (setColorTable h w name)) = name"
    by (simp add: setColorTable_def drawVisualization_calls split: option.splits)
  moreover have "thrown (setColorTable h w name) = None" if "arrayAt h (data w) = Some []"
    by (simp add: setColorTable_def drawVisualization_calls that)
  ultimately show ?thesis
    using setColorTable_throws [OF assms(1)] getColor_unknown [OF assms(1)]
    by (simp add: setColorTable_def)
qed

theorem setColorTable_unknown_witness:
  "colorSchemes ''jet'' = None \<and> ''jet'' \<notin> set inheritedNames
   \<and> arrayAt exampleHeap (data exampleWidget) = Some [0, 1]
   \<and> setColorTable exampleHeap exampleWidget ''jet''
       = Throws TypeError (exampleWidget\<lparr>scheme := ''jet'',
                                          ctx := ctx exampleWidget @ clearCalls exampleWidget\<rparr>)
   \<and> getColor ''jet'' (1 / 2) = Inl TypeError
   \<and> arrayAt (exampleHeap\<lparr>arrays := [[]]\<rparr>) (data exampleWidget) = Some []
   \<and> thrown (setColorTable (exampleHeap\<lparr>arrays := [[]]\<rparr>) exampleWidget ''jet'') = None"
proof -
  have n: "colorSchemes ''jet'' = None" by (simp add: colorSchemes_def)
  have a: "arrayAt exampleHeap (data exampleWidget) = Some [0, 1]"
    by (simp add: arrayAt_def exampleHeap_def exampleWidget_def)
  have e: "arrayAt (exampleHeap\<lparr>arrays := [[]]\<rparr>) (data exampleWidget) = Some []"
    by (simp add: arrayAt_def exampleWidget_def)
  have i: "''jet'' \<notin> set inheritedNames" by (simp add: inheritedNames_def)
  note full = setColorTable_unknown [OF n i, of exampleHeap exampleWidget]
  note empty = setColorTable_unknown [OF n i, of "exampleHeap\<lparr>arrays := [[]]\<rparr>" exampleWidget]
  from full a empty e n i show ?thesis by blast
qed

theorem setColorTable_unknown_counterexample:
  "colorSchemes ''jet'' = None \<and> ''jet'' \<notin> set inheritedNames
   \<and> thrown (setColorTable exampleHeap exampleWidget ''jet'') = Some TypeError"
proof -
  have n: "colorSchemes ''jet'' = None" by (simp add: colorSchemes_def)
  have a: "arrayAt exampleHeap (data exampleWidget) = Some [0, 1]"
    by (simp add: arrayAt_def exampleHeap_def exampleWidget_def)
  have i: "''jet'' \<notin> set inheritedNames" by (simp add: inheritedNames_def)
  from setColorTable_throws [OF n a] n i show ?thesis by simp
qed

subsection \<open>Labels\<close>

lemma natToString10_small: "n < 10 \<Longrightarrow> natToString 10 n = [digitChar n]"
  by (simp add: natToString.simps [of 10 n])

lemma natToString10_two:
  "10 \<le> n \<Longrightarrow> n < 100 \<Longrightarrow> natToString 10 n = [digitChar (n div 10), digitChar (n mod 10)]"
  by (simp add: natToString.simps [of 10 n] natToString10_small)

lemma toFixed_1_shape:
  assumes "0 \<le> R" "R \<le> 3"
  shows "toFixed 1 R = [digitChar (nat \<lfloor>R * 10 + 1 / 2\<rfloor> div 10), CHR ''.'',
                        digitChar (nat \<lfloor>R * 10 + 1 / 2\<rfloor> mod 10)]"
proof -
  define n where "n = nat \<lfloor>R * 10 + 1 / 2\<rfloor>"
  have "\<lfloor>R * 10 + 1 / 2\<rfloor> \<le> 30" using assms by linarith
  then have n30: "n \<le> 30" unfolding n_def by linarith
  have tf: "toFixed 1 R =
      (let m = natToString 10 n;
           m' = (if length m \<le> 1 then replicate (2 - length m) (CHR ''0'') @ m else m)
       in take (length m' - 1) m' @ ''.'' @ drop (length m' - 1) m')"
    using assms by (simp add: toFixed_def n_def Let_def abs_of_nonneg)
  show ?thesis
  proof (cases "n < 10")
    case True
    then show ?thesis
      unfolding n_def [symmetric] tf by (simp add: natToString10_small digitChar_def)
  next
    case False
    with n30 have "10 \<le> n" "n < 100" by simp_all
    then show ?thesis
      unfolding n_def [symmetric] tf by (simp add: natToString10_two)
  qed
qed

lemma toFixed_0: "toFixed 0 x = (if x < 0 then ''-'' else []) @ natToString 10 (nat \<lfloor>\<bar>x\<bar> + 1 / 2\<rfloor>)"
  by (simp add: toFixed_def)

lemma decimal_strings:
  "natToString 10 30 = ''30''" "natToString 10 60 = ''60''" "natToString 10 120 = ''120''"
  by (simp_all add: natToString.simps digitChar_def)

lemma example_numbers:
  "toFixed 1 (1 / 2) = ''0.5''" "toFixed 1 (3 / 2) = ''1.5''" "toFixed 1 (5 / 2) = ''2.5''"
  "toFixed 0 60 = ''60''" "toFixed 0 120 = ''120''" "toFixed 0 30 = ''30''"
  using toFixed_1_shape [of "1 / 2"] toFixed_1_shape [of "3 / 2"] toFixed_1_shape [of "5 / 2"]
  by (simp_all add: toFixed_0 decimal_strings digitChar_def)

lemma example_labels:
  "pointLabel (1 / 2) 60 = ''(R=0.5, '' @ [CHR 0xCE, CHR 0xB8] @ ''=60'' @ [CHR 0xC2, CHR 0xB0] @ '')''"
  "pointLabel (3 / 2) 120 = ''(R=1.5, '' @ [CHR 0xCE, CHR 0xB8] @ ''=120'' @ [CHR 0xC2, CHR 0xB0] @ '')''"
  "pointLabel (5 / 2) 30 = ''(R=2.5, '' @ [CHR 0xCE, CHR 0xB8] @ ''=30'' @ [CHR 0xC2, CHR 0xB0] @ '')''"
  unfolding pointLabel_def example_numbers by simp_all

lemma textsOf_append [simp]: "textsOf (xs @ ys) = textsOf xs @ textsOf ys"
  by (simp add: textsOf_def)

lemma textsOf_marker: "textsOf (markerCalls w R theta phiPrime) = [pointLabel R theta]"
  by (simp add: textsOf_def markerCalls_def Let_def)

lemma textsOf_point:
  "0 \<le> point_R p \<Longrightarrow> point_R p \<le> 3 \<Longrightarrow>
   textsOf (pointCalls w p) = [pointLabel (point_R p) (point_theta p)]"
  using classify_None [of "point_R p"]
  by (auto simp add: pointCalls_def textsOf_marker split: option.splits)

text \<open>
  Claim C8. For \<open>R\<close> in \<open>[0,3]\<close> the text drawn with the marker is
  \<open>(R=<r>, <theta sign>=<t><degree sign>)\<close>, where \<open><r>\<close> is one digit, a point and one digit, the
  tenths nearest to \<open>R\<close>, and \<open><t>\<close> is the integer nearest to \<open>theta\<close> in decimal digits. The
  points (0.5, 60), (1.5, 120) and (2.5, 30) are drawn with the texts \<open>(R=0.5, ...=60...)\<close>,
  \<open>(R=1.5, ...=120...)\<close> and \<open>(R=2.5, ...=30...)\<close>.
\<close>

theorem pointLabel_format:
  assumes "0 \<le> R" and "R \<le> 3" and "\<bar>theta\<bar> < 10 ^ 21"
  shows "(let n = nat \<lfloor>R * 10 + 1 / 2\<rfloor>; m = nat \<lfloor>\<bar>theta\<bar> + 1 / 2\<rfloor>
          in textsOf (ctx (drawPoint w R theta)) = textsOf (ctx w) @ [pointLabel R theta]
           \<and> pointLabel R theta
               = ''(R='' @ [digitChar (n div 10), CHR ''.'', digitChar (n mod 10)] @ '', ''
                 @ [CHR 0xCE, CHR 0xB8] @ ''='' @ (if theta < 0 then ''-'' else []) @ natToString 10 m
                 @ [CHR 0xC2, CHR 0xB0] @ '')''
           \<and> n \<le> 30 \<and> \<bar>R - real n / 10\<bar> \<le> 1 / 20 \<and> \<bar>\<bar>theta\<bar> - real m\<bar> \<le> 1 / 2)
       \<and> textsOf (ctx (drawPoints (w\<lparr>ctx := []\<rparr>)
            [\<lparr>point_R = 1 / 2, point_theta = 60\<rparr>, \<lparr>point_R = 3 / 2, point_theta = 120\<rparr>,
             \<lparr>point_R = 5 / 2, point_theta = 30\<rparr>]))
           = [''(R=0.5, '' @ [CHR 0xCE, CHR 0xB8] @ ''=60'' @ [CHR 0xC2, CHR 0xB0] @ '')'',
              ''(R=1.5, '' @ [CHR 0xCE, CHR 0xB8] @ ''=120'' @ [CHR 0xC2, CHR 0xB0] @ '')'',
              ''(R=2.5, '' @ [CHR 0xCE, CHR 0xB8] @ ''=30'' @ [CHR 0xC2, CHR 0xB0] @ '')'']"
proof -
  define n where "n = nat \<lfloor>R * 10 + 1 / 2\<rfloor>"
  define m where "m = nat \<lfloor>\<bar>theta\<bar> + 1 / 2\<rfloor>"
  have cl: "classify R \<noteq> None" using assms(1,2) by (simp add: classify_None)
  have drawn: "textsOf (ctx (drawPoint w R theta)) = textsOf (ctx w) @ [pointLabel R theta]"
    using cl by (auto simp add: drawPoint_def textsOf_marker)
  have label: "pointLabel R theta
               = ''(R='' @ [digitChar (n div 10), CHR ''.'', digitChar (n mod 10)] @ '', ''
                 @ [CHR 0xCE, CHR 0xB8] @ ''='' @ (if theta < 0 then ''-'' else []) @ natToString 10 m
                 @ [CHR 0xC2, CHR 0xB0] @ '')''"
    unfolding pointLabel_def toFixed_1_shape [OF assms(1,2)] toFixed_0 n_def m_def by simp
  have fl: "0 \<le> \<lfloor>R * 10 + 1 / 2\<rfloor>" "\<lfloor>R * 10 + 1 / 2\<rfloor> \<le> 30" using assms(1,2) by linarith+
  then have rn: "real n = real_of_int \<lfloor>R * 10 + 1 / 2\<rfloor>" by (simp add: n_def)
  have n30: "n \<le> 30" using fl unfolding n_def by linarith
  have near: "\<bar>R - real n / 10\<bar> \<le> 1 / 20" unfolding rn by linarith
  have "0 \<le> \<lfloor>\<bar>theta\<bar> + 1 / 2\<rfloor>" by linarith
  then have rm: "real m = real_of_int \<lfloor>\<bar>theta\<bar> + 1 / 2\<rfloor>" by (simp add: m_def)
  have neart: "\<bar>\<bar>theta\<bar> - real m\<bar> \<le> 1 / 2" unfolding rm by linarith
  have three: "textsOf (ctx (drawPoints (w\<lparr>ctx := []\<rparr>)
            [\<lparr>point_R = 1 / 2, point_theta = 60\<rparr>, \<lparr>point_R = 3 / 2, point_theta = 120\<rparr>,
             \<lparr>point_R = 5 / 2, point_theta = 30\<rparr>]))
           = [pointLabel (1 / 2) 60, pointLabel (3 / 2) 120, pointLabel (5 / 2) 30]"
    by (simp add: drawPoints_calls textsOf_point del: drawPoints.simps)
  show ?thesis
    unfolding Let_def n_def [symmetric] m_def [symmetric]
    using drawn label n30 near neart three [unfolded example_labels] by blast
qed

theorem pointLabel_format_witness:
  "(0::real) \<le> 1 / 2 \<and> (1::real) / 2 \<le> 3 \<and> \<bar>60::real\<bar> < 10 ^ 21
   \<and> textsOf (ctx (drawPoint exampleWidget (1 / 2) 60))
       = [''(R=0.5, '' @ [CHR 0xCE, CHR 0xB8] @ ''=60'' @ [CHR 0xC2, CHR 0xB0] @ '')'']
   \<and> textsOf (ctx (drawPoints (exampleWidget\<lparr>ctx := []\<rparr>)
            [\<lparr>point_R = 1 / 2, point_theta = 60\<rparr>, \<lparr>point_R = 3 / 2, point_theta = 120\<rparr>,
             \<lparr>point_R = 5 / 2, point_theta = 30\<rparr>]))
           = [''(R=0.5, '' @ [CHR 0xCE, CHR 0xB8] @ ''=60'' @ [CHR 0xC2, CHR 0xB0] @ '')'',
              ''(R=1.5, '' @ [CHR 0xCE, CHR 0xB8] @ ''=120'' @ [CHR 0xC2, CHR 0xB0] @ '')'',
              ''(R=2.5, '' @ [CHR 0xCE, CHR 0xB8] @ ''=30'' @ [CHR 0xC2, CHR 0xB0] @ '')'']"
proof -
  have h: "(0::real) \<le> 1 / 2" "(1::real) / 2 \<le> 3" "\<bar>60::real\<bar> < 10 ^ 21" by simp_all
  have e: "textsOf (ctx exampleWidget) = []" by (simp add: exampleWidget_def textsOf_def)
  note t = pointLabel_format [OF h, of exampleWidget, unfolded Let_def e example_labels(1) append_Nil]
  from t h show ?thesis by blast
qed

end
